(* ===== verification/Prelude.thy ===== *)
theory Prelude
  imports Main
begin

text \<open>
  Shared vocabulary of the loopcheck development. It names the types that stand for the
  Go runtime values the analyser handles (\<open>token.Pos\<close> after resolution, and the
  identity of an \<open>*ast.Object\<close>), gives the error-propagating fold \<open>fold_m\<close> that
  models a Go loop whose body may panic, and the list and sum lemmas the component
  theories share. The collection \<open>walk_simps\<close> gathers the one-step evaluation rules
  of the traversal callbacks of the component theories.
\<close>

named_theorems walk_simps "one-step evaluation rules of the traversal callbacks"

type_synonym pos = "string \<times> nat"
  \<comment> \<open>a \<open>token.Pos\<close> as \<open>FileSet.Position\<close> resolves it: file name and line\<close>

type_synonym obj = nat
  \<comment> \<open>the identity of an \<open>*ast.Object\<close>; \<open>None :: obj option\<close> is Go's \<open>nil\<close>\<close>

definition no_pos :: pos where
  "no_pos = ('''', 0)"
  \<comment> \<open>\<open>token.NoPos\<close> resolves to the empty position\<close>

subsection \<open>Sequencing with early exit\<close>

text \<open>
  \<open>fold_m g xs s\<close> runs \<open>g\<close> on the elements of \<open>xs\<close> in order, threading the
  state; the first \<open>Inl\<close> (a panic unwinding the loop) ends the loop.
\<close>

fun fold_m :: "('a \<Rightarrow> 's \<Rightarrow> 'e + 's) \<Rightarrow> 'a list \<Rightarrow> 's \<Rightarrow> 'e + 's" where
  "fold_m g [] s = Inr s"
| "fold_m g (x # xs) s = (case g x s of Inl e \<Rightarrow> Inl e | Inr s' \<Rightarrow> fold_m g xs s')"

lemma fold_m_cong [fundef_cong]:
  "xs = ys \<Longrightarrow> (\<And>x s. x \<in> set ys \<Longrightarrow> f x s = g x s) \<Longrightarrow> s = t \<Longrightarrow>
   fold_m f xs s = fold_m g ys t"
  by (induction ys arbitrary: xs s t) (auto split: sum.splits)

lemma fold_m_append:
  "fold_m g (xs @ ys) s = (case fold_m g xs s of Inl e \<Rightarrow> Inl e | Inr s' \<Rightarrow> fold_m g ys s')"
  by (induction xs arbitrary: s) (auto split: sum.splits)

text \<open>When no step fails, the loop is an ordinary \<open>fold\<close>.\<close>

lemma fold_m_Inr:
  assumes "\<And>x s. x \<in> set xs \<Longrightarrow> g x s = Inr (h x s)"
  shows "fold_m g xs s = Inr (fold h xs s)"
  using assms by (induction xs arbitrary: s) auto

text \<open>
  When each step either fails with one fixed error or succeeds, the loop fails with that
  error exactly when some element fails.
\<close>

lemma fold_m_if:
  assumes "\<And>x s. x \<in> set xs \<Longrightarrow> g x s = (if P x then Inr (h x s) else Inl e)"
  shows "fold_m g xs s = (if \<forall>x \<in> set xs. P x then Inr (fold h xs s) else Inl e)"
  using assms by (induction xs arbitrary: s) auto

lemma fold_m_concat_map:
  "fold_m g (concat (map h xs)) s = fold_m (\<lambda>x. fold_m g (h x)) xs s"
  by (induction xs arbitrary: s) (auto simp: fold_m_append split: sum.splits)

text \<open>
  A loop whose steps agree with another loop's up to a projection \<open>h\<close> of the state
  (and \<open>he\<close> of the error) agrees with it up to these projections as a whole.
\<close>

lemma fold_m_map_state:
  assumes "\<And>x s. x \<in> set xs \<Longrightarrow> map_sum he h (g' x s) = g x (h s)"
  shows "map_sum he h (fold_m g' xs s) = fold_m g xs (h s)"
  using assms
proof (induction xs arbitrary: s)
  case Nil
  then show ?case by simp
next
  case (Cons x xs)
  have step: "map_sum he h (g' x s) = g x (h s)" by (rule Cons.prems) simp
  show ?case
  proof (cases "g' x s")
    case (Inl e)
    with step have "g x (h s) = Inl (he e)" by simp
    with Inl show ?thesis by simp
  next
    case (Inr s')
    with step have "g x (h s) = Inr (h s')" by simp
    with Inr Cons.IH [OF Cons.prems] show ?thesis by simp
  qed
qed

subsection \<open>Lists\<close>

fun opt_list :: "'a option \<Rightarrow> 'a list" where
  "opt_list None = []"
| "opt_list (Some x) = [x]"

lemma set_opt_list [simp]: "set (opt_list x) = set_option x"
  by (cases x) auto

lemma size_list_elem_less: "x \<in> set xs \<Longrightarrow> f x < Suc (size_list f xs)"
  by (induction xs) auto

lemma fold_append_concat:
  "fold (\<lambda>x ys. ys @ h x) xs ys = ys @ concat (map h xs)"
  by (induction xs arbitrary: ys) auto

lemma length_concat_replicate [simp]:
  "length (concat (map (\<lambda>x. replicate (n x) (w x)) xs)) = sum_list (map n xs)"
  by (induction xs) auto

end
