(* ===== verification/GoAst.thy ===== *)
theory GoAst
  imports Prelude
begin

text \<open>
  The part of Go's \<open>go/ast\<close> package that loopcheck uses (an external library, modelled
  from its documented behaviour): the syntax tree, with the node types the analyser
  distinguishes as constructors of their own (\<open>*ast.Ident\<close>, \<open>*ast.UnaryExpr\<close>,
  \<open>*ast.RangeStmt\<close>) and every other node type as \<open>Node kind children\<close>, its children
  in the order \<open>ast.Walk\<close> visits them. \<open>walk\<close> is \<open>ast.Walk\<close> with a visitor
  whose state is threaded explicitly and which may panic (\<open>Inl\<close>); \<open>ast.Inspect\<close>
  is the same traversal. \<open>print_node\<close> stands for \<open>go/printer\<close> on the
  expression forms used in the examples. The main facts: the traversal is total, and a
  visitor that descends everywhere meets every node once, in pre-order; a visitor that stops
  at the nodes it handles meets the outermost ones; renaming identifiers
  (\<open>rename_idents\<close>) commutes with both orders.
\<close>

datatype unop = AND | ADD | SUB | NOT | XOR | ARROW
  \<comment> \<open>the \<open>token.Token\<close> of a \<open>UnaryExpr\<close>; \<open>AND\<close> is the address-of operator \<open>&\<close>\<close>

datatype assign_tok = DEFINE | ASSIGN
  \<comment> \<open>\<open>:=\<close> and \<open>=\<close>\<close>

datatype kind =
    File | FuncDecl | FuncType | FieldList | Field | BlockStmt | ExprStmt
  | AssignStmt assign_tok | DeclStmt | GenDecl | ValueSpec | TypeSpec | StructType
  | ArrayType | StarExpr | ParenExpr | SelectorExpr | IndexExpr | CallExpr
  | CompositeLit | KeyValueExpr | BasicLit string | FuncLit | OtherNode string

datatype node =
    Ident string "obj option"
      \<comment> \<open>name and \<open>Obj\<close>, the declaration the parser resolved it to (\<open>nil\<close>: unresolved)\<close>
  | UnaryExpr pos unop node
      \<comment> \<open>\<open>OpPos\<close>, \<open>Op\<close>, \<open>X\<close>\<close>
  | RangeStmt pos assign_tok "node option" "node option" node node
      \<comment> \<open>\<open>For\<close>, \<open>Tok\<close>, \<open>Key\<close>, \<open>Value\<close> (\<open>nil\<close> when absent), \<open>X\<close>, \<open>Body\<close>\<close>
  | Node kind "node list"

text \<open>The children of a node, in \<open>ast.Walk\<close>'s order; absent optional fields are skipped.\<close>

fun children :: "node \<Rightarrow> node list" where
  "children (Ident _ _) = []"
| "children (UnaryExpr _ _ x) = [x]"
| "children (RangeStmt _ _ k v x b) = opt_list k @ opt_list v @ [x, b]"
| "children (Node _ cs) = cs"

fun node_pos :: "node \<Rightarrow> pos" where
  "node_pos (UnaryExpr p _ _) = p"
| "node_pos (RangeStmt p _ _ _ _ _) = p"
| "node_pos _ = no_pos"

lemma size_children:
  assumes "c \<in> set (children n)"
  shows "size c < size n"
  using assms
proof (cases n)
  case (RangeStmt p t k v x b)
  with assms show ?thesis by (cases k; cases v) auto
next
  case (Node kd cs)
  with assms show ?thesis by (auto dest: size_list_elem_less)
qed auto

subsection \<open>Printing expressions\<close>

text \<open>
  \<open>print_node\<close> renders the expression forms of the examples as \<open>go/printer\<close> does
  (\<open>&v\<close>, \<open>(v).number\<close>, \<open>values[i]\<close>, \<open>MyStruct{v.number}\<close>); other node
  kinds are rendered as the comma-separated list of their children, which the analyser
  never prints in the examples.
\<close>

fun unop_str :: "unop \<Rightarrow> string" where
  "unop_str AND = ''&''"
| "unop_str ADD = ''+''"
| "unop_str SUB = ''-''"
| "unop_str NOT = ''!''"
| "unop_str XOR = ''^''"
| "unop_str ARROW = ''<-''"

fun commas :: "string list \<Rightarrow> string" where
  "commas [] = ''''"
| "commas [s] = s"
| "commas (s # ss) = s @ '', '' @ commas ss"

fun print_kind :: "kind \<Rightarrow> string list \<Rightarrow> string" where
  "print_kind ParenExpr [x] = ''('' @ x @ '')''"
| "print_kind SelectorExpr [x, sel] = x @ ''.'' @ sel"
| "print_kind IndexExpr [x, i] = x @ ''['' @ i @ '']''"
| "print_kind CallExpr (f # args) = f @ ''('' @ commas args @ '')''"
| "print_kind CompositeLit (t # elts) = t @ ''{'' @ commas elts @ ''}''"
| "print_kind KeyValueExpr [k, v] = k @ '': '' @ v"
| "print_kind StarExpr [x] = ''*'' @ x"
| "print_kind ArrayType [x] = ''[]'' @ x"
| "print_kind (BasicLit s) [] = s"
| "print_kind _ ps = commas ps"

fun print_node :: "node \<Rightarrow> string" where
  "print_node (Ident nm _) = nm"
| "print_node (UnaryExpr _ op x) = unop_str op @ print_node x"
| "print_node (RangeStmt _ _ _ _ x _) = ''for range '' @ print_node x"
| "print_node (Node k cs) = print_kind k (map print_node cs)"

subsection \<open>\<open>ast.Walk\<close> and \<open>ast.Inspect\<close>\<close>

text \<open>
  \<^verbatim>\<open>
  func Walk(v Visitor, node Node) {
      if v = v.Visit(node); v == nil { return }
      ... Walk(v, child) for each child ...
      v.Visit(nil)
  }
  \<close>
  The visitor is a function of the state and the node that returns whether to descend
  (\<open>v \<noteq> nil\<close>) and the new state, or panics. The closing \<open>v.Visit(nil)\<close> is left
  out: every visitor of loopcheck ignores it.
\<close>

function (domintros) walk :: "('s \<Rightarrow> node \<Rightarrow> 'e + bool \<times> 's) \<Rightarrow> node \<Rightarrow> 's \<Rightarrow> 'e + 's" where
  "walk f n s =
     (case f s n of
        Inl e \<Rightarrow> Inl e
      | Inr (go, s') \<Rightarrow> if go then fold_m (walk f) (children n) s' else Inr s')"
  by pat_completeness auto
termination
  by (relation "measure (\<lambda>(f, n, s). size n)") (auto dest: size_children)

declare walk.simps [simp del]

text \<open>The nodes of a tree in pre-order: the specification of the traversal order.\<close>

function preorder :: "node \<Rightarrow> node list" where
  "preorder n = n # concat (map preorder (children n))"
  by pat_completeness auto
termination
  by (relation "measure size") (auto dest: size_children)

declare preorder.simps [simp del]

lemma preorder_Ident [simp]: "preorder (Ident nm ob) = [Ident nm ob]"
  by (simp add: preorder.simps)

lemma preorder_UnaryExpr [simp]: "preorder (UnaryExpr p op x) = UnaryExpr p op x # preorder x"
  by (simp add: preorder.simps)

lemma preorder_Node [simp]: "preorder (Node k cs) = Node k cs # concat (map preorder cs)"
  by (simp add: preorder.simps)

lemma preorder_RangeStmt [simp]:
  "preorder (RangeStmt p t k v x b) = RangeStmt p t k v x b #
     concat (map preorder (opt_list k @ opt_list v @ [x, b]))"
  by (simp add: preorder.simps)

lemma self_in_preorder [simp]: "n \<in> set (preorder n)"
  by (subst preorder.simps) simp

lemma fold_concat_map: "fold g (concat (map h xs)) s = fold (\<lambda>x. fold g (h x)) xs s"
  by (induction xs arbitrary: s) auto

lemma preorder_children_subset:
  "c \<in> set (children n) \<Longrightarrow> set (preorder c) \<subseteq> set (preorder n)"
  by (subst (2) preorder.simps) auto

text \<open>
  \<open>pruned b n\<close> lists, in pre-order, the nodes a walk meets when its visitor descends
  exactly below the nodes satisfying \<open>b\<close>: a node whose visitor returns \<open>nil\<close> is
  met, its children are not.
\<close>

function pruned :: "(node \<Rightarrow> bool) \<Rightarrow> node \<Rightarrow> node list" where
  "pruned b n = n # (if b n then concat (map (pruned b) (children n)) else [])"
  by pat_completeness auto
termination
  by (relation "measure (\<lambda>(b, n). size n)") (auto dest: size_children)

declare pruned.simps [simp del]

lemma walk_pruned:
  assumes "\<And>s m. m \<in> set (pruned b n) \<Longrightarrow> f s m = Inr (b m, g m s)"
  shows "walk f n s = Inr (fold g (pruned b n) s)"
  using assms
proof (induction f n s rule: walk.induct)
  case (1 f n s)
  have n_in: "n \<in> set (pruned b n)" by (simp add: pruned.simps [of b n])
  show ?case
  proof (cases "b n")
    case True
    have "walk f c s' = Inr (fold g (pruned b c) s')" if c: "c \<in> set (children n)" for c s'
    proof (rule "1.IH" [OF "1.prems" [OF n_in] refl True c])
      fix s m assume "m \<in> set (pruned b c)"
      with c True have "m \<in> set (pruned b n)" by (subst pruned.simps) auto
      then show "f s m = Inr (b m, g m s)" by (rule "1.prems")
    qed
    then have "fold_m (walk f) (children n) (g n s) =
        Inr (fold (\<lambda>c. fold g (pruned b c)) (children n) (g n s))"
      by (rule fold_m_Inr)
    with True "1.prems" [OF n_in] show ?thesis
      by (simp add: walk.simps [of f n s] pruned.simps [of b n] fold_concat_map)
  next
    case False
    with "1.prems" [OF n_in] show ?thesis
      by (simp add: walk.simps [of f n s] pruned.simps [of b n])
  qed
qed

lemma pruned_preorder:
  assumes "\<And>m. m \<in> set (preorder n) \<Longrightarrow> \<not> b m \<Longrightarrow> children m = []"
  shows "pruned b n = preorder n"
  using assms
proof (induction b n rule: pruned.induct)
  case (1 b n)
  show ?case
  proof (cases "b n")
    case True
    have "pruned b c = preorder c" if c: "c \<in> set (children n)" for c
      using preorder_children_subset [OF c] "1.prems" by (intro "1.IH" [OF True c]) blast
    with True show ?thesis
      by (subst pruned.simps, subst preorder.simps) (simp cong: map_cong)
  next
    case False
    with "1.prems" [of n] have "children n = []" by simp
    with False show ?thesis
      by (subst pruned.simps, subst preorder.simps) simp
  qed
qed

text \<open>
  A visitor that never fails, and that stops descending only at leaves, performs its
  state change once on every node of the tree, in pre-order. This is the lemma every
  traversal of the development is reduced to.
\<close>

lemma walk_fold:
  assumes "\<And>s m. m \<in> set (preorder n) \<Longrightarrow> f s m = Inr (b m, g m s)"
    and "\<And>m. m \<in> set (preorder n) \<Longrightarrow> \<not> b m \<Longrightarrow> children m = []"
  shows "walk f n s = Inr (fold g (preorder n) s)"
proof -
  from assms(2) have "pruned b n = preorder n" by (rule pruned_preorder)
  with walk_pruned [of b n f g s] assms(1) show ?thesis by simp
qed

subsection \<open>The outermost nodes of a kind\<close>

text \<open>
  \<open>outermost P n\<close> lists, in pre-order, the nodes satisfying \<open>P\<close> that are not
  below another such node: the nodes a traversal meets when it does not descend below
  the nodes it handles.
\<close>

function outermost :: "(node \<Rightarrow> bool) \<Rightarrow> node \<Rightarrow> node list" where
  "outermost P n = (if P n then [n] else concat (map (outermost P) (children n)))"
  by pat_completeness auto
termination
  by (relation "measure (\<lambda>(P, n). size n)") (auto dest: size_children)

declare outermost.simps [simp del]

lemma outermost_subset: "set (outermost P n) \<subseteq> set (preorder n)"
proof (induction P n rule: outermost.induct)
  case (1 P n)
  then show ?case
    by (subst outermost.simps, subst preorder.simps) auto
qed

lemma outermost_sat: "m \<in> set (outermost P n) \<Longrightarrow> P m"
proof (induction P n rule: outermost.induct)
  case (1 P n)
  then show ?case
    by (cases "P n") (auto simp: outermost.simps [of P n])
qed

text \<open>
  A visitor that leaves the state alone and descends on every node but the \<open>P\<close>-nodes,
  where it runs \<open>h\<close> and stops, amounts to running \<open>h\<close> on the outermost
  \<open>P\<close>-nodes in order.
\<close>

lemma walk_outermost:
  assumes "\<And>s m. \<not> P m \<Longrightarrow> f s m = Inr (True, s)"
    and "\<And>s m. P m \<Longrightarrow> f s m = (case h m s of Inl e \<Rightarrow> Inl e | Inr s' \<Rightarrow> Inr (False, s'))"
  shows "walk f n s = fold_m h (outermost P n) s"
  using assms
proof (induction f n s rule: walk.induct)
  case (1 f n s)
  show ?case
  proof (cases "P n")
    case True
    with "1.prems"(2) show ?thesis
      by (simp add: walk.simps [of f n s] outermost.simps [of P n] split: sum.splits)
  next
    case False
    have "walk f c s' = fold_m h (outermost P c) s'" if c: "c \<in> set (children n)" for c s'
      using "1.prems" by (intro "1.IH" [OF "1.prems"(1) [OF False] refl TrueI c])
    then have "fold_m (walk f) (children n) s = fold_m (\<lambda>c. fold_m h (outermost P c)) (children n) s"
      by (intro fold_m_cong) auto
    with False "1.prems"(1) show ?thesis
      by (simp add: walk.simps [of f n s] outermost.simps [of P n] fold_m_concat_map)
  qed
qed

subsection \<open>Renaming identifiers\<close>

text \<open>
  \<open>rename_idents f\<close> changes the name of every identifier of a tree and keeps its
  object and every position: the same program with its variables named differently.
  Renaming commutes with the traversal orders.
\<close>

fun rename_idents :: "(string \<Rightarrow> string) \<Rightarrow> node \<Rightarrow> node" where
  "rename_idents f (Ident nm ob) = Ident (f nm) ob"
| "rename_idents f (UnaryExpr p op x) = UnaryExpr p op (rename_idents f x)"
| "rename_idents f (RangeStmt p t k vl x b) =
     RangeStmt p t (map_option (rename_idents f) k) (map_option (rename_idents f) vl)
       (rename_idents f x) (rename_idents f b)"
| "rename_idents f (Node kd cs) = Node kd (map (rename_idents f) cs)"

lemma opt_list_map_option [simp]: "opt_list (map_option g x) = map g (opt_list x)"
  by (cases x) auto

lemma children_rename [simp]: "children (rename_idents f n) = map (rename_idents f) (children n)"
  by (cases n) auto

lemma node_pos_rename [simp]: "node_pos (rename_idents f m) = node_pos m"
  by (cases m) auto

lemma preorder_rename: "preorder (rename_idents f n) = map (rename_idents f) (preorder n)"
proof (induction n rule: preorder.induct)
  case (1 n)
  then show ?case
    by (subst (1 2) preorder.simps) (simp add: map_concat comp_def cong: map_cong)
qed

lemma outermost_rename:
  assumes "\<And>m. P (rename_idents f m) = P m"
  shows "outermost P (rename_idents f n) = map (rename_idents f) (outermost P n)"
  using assms
proof (induction P n rule: outermost.induct)
  case (1 P n)
  then show ?case
    by (subst (1 2) outermost.simps) (simp add: "1.prems" "1.IH" map_concat comp_def cong: map_cong)
qed


text \<open>
  Simulation: a visitor that agrees with another up to a projection \<open>h\<close> of its state
  and \<open>he\<close> of its panics (its extra state never decides anything) walks every tree
  as the other does, up to these projections.
\<close>

lemma walk_map_state:
  assumes "\<And>s m. map_sum he (map_prod id h) (f' s m) = f (h s) m"
  shows "map_sum he h (walk f' n s) = walk f n (h s)"
  using assms
proof (induction f' n s rule: walk.induct)
  case (1 f' n s)
  show ?case
  proof (cases "f' s n")
    case (Inl e)
    with "1.prems" [of s n] have "f (h s) n = Inl (he e)" by simp
    with Inl show ?thesis
      by (simp add: walk.simps [of f' n s] walk.simps [of f n "h s"])
  next
    case (Inr r)
    obtain go s' where r: "r = (go, s')" by (cases r)
    with Inr "1.prems" [of s n] have fh: "f (h s) n = Inr (go, h s')" by simp
    show ?thesis
    proof (cases go)
      case True
      have "map_sum he h (fold_m (walk f') (children n) s') = fold_m (walk f) (children n) (h s')"
        by (rule fold_m_map_state) (rule "1.IH" [OF Inr [unfolded r] refl True], assumption, rule "1.prems")
      with Inr r fh True show ?thesis
        by (simp add: walk.simps [of f' n s] walk.simps [of f n "h s"])
    next
      case False
      with Inr r fh show ?thesis
        by (simp add: walk.simps [of f' n s] walk.simps [of f n "h s"])
    qed
  qed
qed

text \<open>
  \<open>ast.Walk\<close> terminates for every visitor: each recursive call is on a child, a
  smaller tree, whatever the visitor answers.
\<close>

lemma walk_dom_total: "walk_dom (f, n, s)"
proof (induction n arbitrary: s rule: measure_induct_rule [of size])
  case (less n)
  show ?case
    by (rule walk.domintros) (auto dest: size_children intro: less)
qed

end
