(* ===== verification/RangeCheck.thy ===== *)
theory RangeCheck
  imports GoAst
begin

text \<open>
  The escape check of one \<open>range\<close> loop, \<open>visitor.checkRange\<close> of
  \<open>src/libloopcheck/loopcheck.go\<close>, with the records it fills (\<open>warning\<close>,
  \<open>visitor\<close>), the two closures it hands to \<open>ast.Inspect\<close> (\<open>body_fn\<close> on the
  loop body, \<open>ident_fn\<close> on the operand of each \<open>&\<close>) and the renderers
  \<open>rangestr\<close> and \<open>str\<close>. The printer \<open>go/printer\<close> is the parameter
  \<open>pp\<close>. The main result, \<open>check_range_eq\<close>, computes what the check appends:
  for each outermost \<open>&\<close> of the body, one warning per identifier below it whose
  \<open>Obj\<close> equals the key's or the value's \<open>Obj\<close> (\<open>range_warnings\<close>); and a
  panic when a slot of the loop header is not an identifier.
\<close>

record warning =
  usageExpr :: string
  usagePos :: pos
  rangeExpr :: string
  rangePos :: pos

record visitor =
  warnings :: "warning list"
  printed :: string
    \<comment> \<open>what the visitor wrote to standard output (\<open>fmt.Printf\<close> in \<open>Visit\<close>)\<close>

text \<open>
  The visitor's \<open>fset\<close> is the position table, already applied in \<open>pos\<close>. Its
  \<open>buffer\<close> is reset before every use and read back at once, so \<open>str\<close> and
  \<open>rangestr\<close> are written here as pure functions; theory \<open>Buffer\<close> models them over
  the shared buffer and proves them equal to these (C27).
\<close>

datatype panic = Panic string

definition str :: "(node \<Rightarrow> string) \<Rightarrow> node \<Rightarrow> string" where
  "str pp n = pp n"

text \<open>\<open>printer.Fprint\<close> of a \<open>nil\<close> node fails and writes nothing; the error is ignored.\<close>

fun print_opt :: "(node \<Rightarrow> string) \<Rightarrow> node option \<Rightarrow> string" where
  "print_opt pp None = ''''"
| "print_opt pp (Some n) = pp n"

fun rangestr :: "(node \<Rightarrow> string) \<Rightarrow> node \<Rightarrow> string" where
  "rangestr pp (RangeStmt _ _ k v x _) =
     ''for '' @ print_opt pp k @ (case v of None \<Rightarrow> '''' | Some vn \<Rightarrow> '', '' @ pp vn)
       @ '' := range '' @ pp x"
| "rangestr pp _ = ''''"

definition mk_warning :: "(node \<Rightarrow> string) \<Rightarrow> node \<Rightarrow> node \<Rightarrow> warning" where
  "mk_warning pp u rs =
     \<lparr>usageExpr = str pp u, usagePos = node_pos u, rangeExpr = rangestr pp rs, rangePos = node_pos rs\<rparr>"

definition empty_visitor :: visitor where
  "empty_visitor = \<lparr>warnings = [], printed = ''''\<rparr>"
  \<comment> \<open>\<open>visitor{fset, bytes.Buffer{}, []warning{}}\<close> of \<open>CheckFiles\<close>\<close>

definition add_warnings :: "warning list \<Rightarrow> visitor \<Rightarrow> visitor" where
  "add_warnings ws v = v\<lparr>warnings := warnings v @ ws\<rparr>"

subsection \<open>The check\<close>

text \<open>
  \<^verbatim>\<open>
  if key, ok := node.Key.(*ast.Ident); ok { keyObject = key.Obj }
  else if node.Key != nil { panic("wtf") }
  \<close>
\<close>

fun slot_obj :: "node option \<Rightarrow> panic + obj option" where
  "slot_obj None = Inr None"
| "slot_obj (Some (Ident _ ob)) = Inr ob"
| "slot_obj (Some _) = Inl (Panic ''wtf'')"

text \<open>The closure inspecting the operand of \<open>unary\<close> (lines 93--105).\<close>

definition ident_fn ::
  "(node \<Rightarrow> string) \<Rightarrow> obj option \<Rightarrow> obj option \<Rightarrow> node \<Rightarrow> node \<Rightarrow>
   visitor \<Rightarrow> node \<Rightarrow> panic + bool \<times> visitor" where
  "ident_fn pp ko vo rs unary v n2 =
     (case n2 of
        Ident _ ob \<Rightarrow>
          if ob = ko \<or> ob = vo
          then Inr (False, v\<lparr>warnings := warnings v @ [mk_warning pp unary rs]\<rparr>)
          else Inr (True, v)
      | _ \<Rightarrow> Inr (True, v))"

text \<open>The closure inspecting the loop body (lines 87--111).\<close>

definition body_fn ::
  "(node \<Rightarrow> string) \<Rightarrow> obj option \<Rightarrow> obj option \<Rightarrow> node \<Rightarrow>
   visitor \<Rightarrow> node \<Rightarrow> panic + bool \<times> visitor" where
  "body_fn pp ko vo rs v n =
     (case n of
        UnaryExpr _ op x \<Rightarrow>
          if op = AND
          then (case walk (ident_fn pp ko vo rs n) x v of
                  Inl e \<Rightarrow> Inl e
                | Inr v' \<Rightarrow> Inr (False, v'))
          else Inr (True, v)
      | _ \<Rightarrow> Inr (True, v))"

text \<open>
  \<open>checkRange\<close> (lines 69--114). It is only called on a \<open>*ast.RangeStmt\<close>; on any
  other node the model leaves the visitor alone.
\<close>

fun check_range :: "(node \<Rightarrow> string) \<Rightarrow> visitor \<Rightarrow> node \<Rightarrow> panic + bool \<times> visitor" where
  "check_range pp v (RangeStmt p t k vl x body) =
     (case slot_obj k of
        Inl e \<Rightarrow> Inl e
      | Inr keyObject \<Rightarrow>
          (case slot_obj vl of
             Inl e \<Rightarrow> Inl e
           | Inr valueObject \<Rightarrow>
               if keyObject = None \<and> valueObject = None then Inr (True, v)
               else (case walk (body_fn pp keyObject valueObject (RangeStmt p t k vl x body)) body v of
                       Inl e \<Rightarrow> Inl e
                     | Inr v' \<Rightarrow> Inr (True, v'))))"
| "check_range pp v _ = Inr (True, v)"

subsection \<open>What the check reports\<close>

text \<open>
  The specification of the check, written without the traversal: the outermost
  address-of expressions of the body, each with the number of identifiers in its operand
  whose \<open>Obj\<close> is the key's or the value's (\<open>nil\<close> included, as Go's \<open>==\<close> on
  pointers compares it).
\<close>

fun is_addr :: "node \<Rightarrow> bool" where
  "is_addr (UnaryExpr _ AND _) = True"
| "is_addr _ = False"

fun operand :: "node \<Rightarrow> node" where
  "operand (UnaryExpr _ _ x) = x"
| "operand n = n"

fun is_ref :: "obj option \<Rightarrow> obj option \<Rightarrow> node \<Rightarrow> bool" where
  "is_ref ko vo (Ident _ ob) = (ob = ko \<or> ob = vo)"
| "is_ref ko vo _ = False"

definition bound_refs :: "obj option \<Rightarrow> obj option \<Rightarrow> node \<Rightarrow> nat" where
  "bound_refs ko vo x = length (filter (is_ref ko vo) (preorder x))"

fun slot_ok :: "node option \<Rightarrow> bool" where
  "slot_ok None = True"
| "slot_ok (Some (Ident _ _)) = True"
| "slot_ok (Some _) = False"

fun slot_id :: "node option \<Rightarrow> obj option" where
  "slot_id (Some (Ident _ ob)) = ob"
| "slot_id _ = None"

fun range_ok :: "node \<Rightarrow> bool" where
  "range_ok (RangeStmt _ _ k v _ _) = (slot_ok k \<and> slot_ok v)"
| "range_ok _ = True"

definition addr_warnings :: "(node \<Rightarrow> string) \<Rightarrow> obj option \<Rightarrow> obj option \<Rightarrow> node \<Rightarrow> node \<Rightarrow> warning list" where
  "addr_warnings pp ko vo rs body =
     concat (map (\<lambda>u. replicate (bound_refs ko vo (operand u)) (mk_warning pp u rs))
                 (outermost is_addr body))"

fun range_warnings :: "(node \<Rightarrow> string) \<Rightarrow> node \<Rightarrow> warning list" where
  "range_warnings pp (RangeStmt p t k v x body) =
     (if slot_id k = None \<and> slot_id v = None then []
      else addr_warnings pp (slot_id k) (slot_id v) (RangeStmt p t k v x body) body)"
| "range_warnings pp _ = []"

subsection \<open>The check meets its specification\<close>

lemma add_warnings_Nil [simp]: "add_warnings [] v = v"
  by (simp add: add_warnings_def)

lemma add_warnings_add [simp]: "add_warnings ws (add_warnings ws' v) = add_warnings (ws' @ ws) v"
  by (simp add: add_warnings_def)

lemma warnings_add [simp]: "warnings (add_warnings ws v) = warnings v @ ws"
  by (simp add: add_warnings_def)

lemma printed_add [simp]: "printed (add_warnings ws v) = printed v"
  by (simp add: add_warnings_def)

lemma fold_add_warnings:
  "fold (\<lambda>x. add_warnings (h x)) xs v = add_warnings (concat (map h xs)) v"
  by (induction xs arbitrary: v) auto

lemma fold_add_if:
  "fold (\<lambda>m v. if Q m then add_warnings [w] v else v) xs v =
   add_warnings (replicate (length (filter Q xs)) w) v"
  by (induction xs arbitrary: v) (auto simp: replicate_app_Cons_same)

lemma ident_fn_eval [walk_simps]:
  "ident_fn pp ko vo rs u v m =
     Inr (\<not> is_ref ko vo m, if is_ref ko vo m then add_warnings [mk_warning pp u rs] v else v)"
  by (cases m) (simp_all add: ident_fn_def add_warnings_def)

lemma children_is_ref: "is_ref ko vo m \<Longrightarrow> children m = []"
  by (cases m) auto

text \<open>The inner inspection appends one warning per matching identifier.\<close>

lemma ident_walk:
  "walk (ident_fn pp ko vo rs u) x v =
     Inr (add_warnings (replicate (bound_refs ko vo x) (mk_warning pp u rs)) v)"
proof -
  have "walk (ident_fn pp ko vo rs u) x v =
      Inr (fold (\<lambda>m v. if is_ref ko vo m then add_warnings [mk_warning pp u rs] v else v) (preorder x) v)"
    by (rule walk_fold) (auto simp: ident_fn_eval children_is_ref)
  then show ?thesis
    by (simp add: fold_add_if bound_refs_def)
qed

lemma body_fn_eval [walk_simps]:
  "\<not> is_addr m \<Longrightarrow> body_fn pp ko vo rs v m = Inr (True, v)"
  "is_addr m \<Longrightarrow> body_fn pp ko vo rs v m =
     (case walk (ident_fn pp ko vo rs m) (operand m) v of Inl e \<Rightarrow> Inl e | Inr v' \<Rightarrow> Inr (False, v'))"
  by (cases m rule: is_addr.cases; simp add: body_fn_def)+

text \<open>The outer inspection handles each outermost \<open>&\<close> once.\<close>

lemma body_walk:
  "walk (body_fn pp ko vo rs) body v = Inr (add_warnings (addr_warnings pp ko vo rs body) v)"
proof -
  have "walk (body_fn pp ko vo rs) body v =
      fold_m (\<lambda>u. walk (ident_fn pp ko vo rs u) (operand u)) (outermost is_addr body) v"
    by (rule walk_outermost) (simp_all add: body_fn_eval)
  also have "\<dots> = Inr (fold (\<lambda>u. add_warnings (replicate (bound_refs ko vo (operand u)) (mk_warning pp u rs)))
                          (outermost is_addr body) v)"
    by (rule fold_m_Inr) (rule ident_walk)
  finally show ?thesis
    by (simp add: fold_add_warnings addr_warnings_def)
qed

lemma slot_obj_eq: "slot_obj k = (if slot_ok k then Inr (slot_id k) else Inl (Panic ''wtf''))"
  by (cases k rule: slot_ok.cases) auto

text \<open>
  The check, computed: a panic when a header slot is not an identifier, and otherwise
  the warnings of the specification appended, with \<open>true\<close> returned.
\<close>

lemma check_range_eq:
  "check_range pp v rs =
     (if range_ok rs then Inr (True, add_warnings (range_warnings pp rs) v) else Inl (Panic ''wtf''))"
  by (cases rs) (auto simp: slot_obj_eq body_walk)

subsection \<open>Properties of the check\<close>

text \<open>
  An expression that reaches a bound variable through parentheses and field selections
  only: \<open>v\<close>, \<open>(v)\<close>, \<open>v.f\<close>, \<open>(v.f)\<close>, \<open>(v).f\<close>. The selected field name is an
  identifier the parser leaves unresolved.
\<close>

inductive wrapped_ref :: "obj \<Rightarrow> node \<Rightarrow> bool" where
  ref_ident: "wrapped_ref ob (Ident nm (Some ob))"
| ref_paren: "wrapped_ref ob e \<Longrightarrow> wrapped_ref ob (Node ParenExpr [e])"
| ref_field: "wrapped_ref ob e \<Longrightarrow> wrapped_ref ob (Node SelectorExpr [e, Ident f None])"

lemma wrapped_ref_bound_refs:
  assumes "wrapped_ref ob e" and "ko \<noteq> None" and "vo \<noteq> None" and "Some ob = ko \<or> Some ob = vo"
  shows "bound_refs ko vo e = 1"
  using assms
  by (induction rule: wrapped_ref.induct) (auto simp: bound_refs_def)

lemma set_addr_warnings:
  "set (addr_warnings pp ko vo rs body) =
     {mk_warning pp u rs | u. u \<in> set (outermost is_addr body) \<and> 0 < bound_refs ko vo (operand u)}"
  by (auto simp: addr_warnings_def)

lemma slot_id_ok: "slot_id k = Some ob \<Longrightarrow> slot_ok k"
  by (cases k rule: slot_ok.cases) auto

text \<open>What a check that returns adds, when the loop binds something.\<close>

lemma check_range_bound:
  assumes "check_range pp v (RangeStmt q t k vl x body) = Inr (ok, v')"
    and "slot_id k \<noteq> None \<or> slot_id vl \<noteq> None"
  shows "v' = add_warnings (addr_warnings pp (slot_id k) (slot_id vl) (RangeStmt q t k vl x body) body) v"
  using assms by (auto simp: check_range_eq split: if_splits)

subsection \<open>Names do not matter\<close>

text \<open>
  The check compares objects, never names: renaming identifiers leaves the headers'
  well-formedness and the positions of all warnings unchanged.
\<close>

definition warning_pos :: "warning \<Rightarrow> pos \<times> pos" where
  "warning_pos w = (usagePos w, rangePos w)"

lemma is_addr_rename [simp]: "is_addr (rename_idents f m) = is_addr m"
  by (cases m rule: is_addr.cases) auto

lemma operand_rename [simp]: "operand (rename_idents f m) = rename_idents f (operand m)"
  by (cases m) auto

lemma is_ref_rename [simp]: "is_ref ko vo (rename_idents f m) = is_ref ko vo m"
  by (cases m) auto

lemma slot_rename [simp]:
  "slot_ok (map_option (rename_idents f) k) = slot_ok k"
  "slot_id (map_option (rename_idents f) k) = slot_id k"
  by (cases k rule: slot_ok.cases; auto)+

lemma bound_refs_rename [simp]: "bound_refs ko vo (rename_idents f x) = bound_refs ko vo x"
  by (simp add: bound_refs_def preorder_rename filter_map comp_def)

lemma range_ok_rename [simp]: "range_ok (rename_idents f rs) = range_ok rs"
  by (cases rs) auto

lemma range_warnings_pos_rename:
  "map warning_pos (range_warnings pp (rename_idents f rs)) = map warning_pos (range_warnings pp rs)"
  by (cases rs)
     (simp_all add: addr_warnings_def outermost_rename map_concat comp_def warning_pos_def mk_warning_def)

definition ex_loop :: node where
  "ex_loop = RangeStmt (''a.go'', 2) DEFINE (Some (Ident ''_'' (Some 1))) (Some (Ident ''v'' (Some 2)))
     (Ident ''xs'' (Some 0))
     (Node BlockStmt [Node ExprStmt [UnaryExpr (''a.go'', 3) AND
        (Node ParenExpr [Node SelectorExpr [Ident ''v'' (Some 2), Ident ''number'' None]])]])"
  \<comment> \<open>\<open>for _, v := range xs { &(v.number) }\<close>\<close>

definition ex_bad_loop :: node where
  "ex_bad_loop = RangeStmt (''a.go'', 1) ASSIGN
     (Some (Node IndexExpr [Ident ''a'' (Some 1), Node (BasicLit ''0'') []])) None
     (Ident ''xs'' (Some 0)) (Node BlockStmt [])"
  \<comment> \<open>\<open>for a[0] = range xs {}\<close>\<close>

text \<open>
  C1. Refinement of \<open>checkRange\<close>: on a loop whose key and value slots are identifiers
  or absent, the check returns \<open>true\<close> and appends exactly the warnings of the
  specification \<open>range_warnings\<close> to the visitor, in order.
\<close>

theorem check_range_refines:
  "range_ok rs \<Longrightarrow> check_range pp v rs = Inr (True, add_warnings (range_warnings pp rs) v)"
  by (simp add: check_range_eq)

theorem check_range_refines_witness:
  "range_ok ex_loop \<and>
   check_range (\<lambda>_. ''e'') empty_visitor ex_loop =
     Inr (True, add_warnings (range_warnings (\<lambda>_. ''e'') ex_loop) empty_visitor)"
proof -
  have ok: "range_ok ex_loop" by (simp add: ex_loop_def)
  show ?thesis using ok check_range_refines [OF ok] by simp
qed

text \<open>
  C4. A loop that binds neither a key nor a value (\<open>for range xs\<close>) produces no
  warning and leaves the visitor unchanged, whatever its body.
\<close>

theorem check_range_no_bindings:
  "check_range pp v (RangeStmt p t None None x body) = Inr (True, v)"
  by (simp add: check_range_eq)

text \<open>
  C5. A key or value slot that is present but not an identifier makes the check panic
  with \<open>"wtf"\<close>.
\<close>

theorem check_range_panics:
  "\<not> range_ok rs \<Longrightarrow> check_range pp v rs = Inl (Panic ''wtf'')"
  by (simp add: check_range_eq)

theorem check_range_panics_witness:
  "\<not> range_ok ex_bad_loop \<and> check_range (\<lambda>_. ''e'') empty_visitor ex_bad_loop = Inl (Panic ''wtf'')"
proof -
  have bad: "\<not> range_ok ex_bad_loop" by (simp add: ex_bad_loop_def)
  show ?thesis using bad check_range_panics [OF bad] by simp
qed

text \<open>
  C9. Parentheses and field selection are transparent: in a loop binding both a key and a
  value, a body whose only outermost address-of is \<open>&e\<close>, with \<open>e\<close> the key or
  the value under any parentheses and field selections, makes the check append exactly
  one warning, at the position of the \<open>&\<close> and attributed to the loop.
\<close>

theorem wrapped_ref_one_warning:
  assumes "wrapped_ref ob e" and "slot_id k = Some ko" and "slot_id vl = Some vo"
    and "ob = ko \<or> ob = vo" and "outermost is_addr body = [UnaryExpr p AND e]"
  shows "check_range pp v (RangeStmt q t k vl x body) =
           Inr (True, add_warnings [mk_warning pp (UnaryExpr p AND e) (RangeStmt q t k vl x body)] v)"
proof -
  have "bound_refs (Some ko) (Some vo) e = 1"
    using wrapped_ref_bound_refs [OF assms(1)] assms(4) by auto
  moreover have "range_ok (RangeStmt q t k vl x body)"
    using assms(2,3) by (simp add: slot_id_ok)
  ultimately show ?thesis
    using assms(2,3,5) by (simp add: check_range_eq addr_warnings_def)
qed

theorem wrapped_ref_one_warning_witness:
  "check_range (\<lambda>_. ''e'') empty_visitor ex_loop =
     Inr (True, add_warnings [mk_warning (\<lambda>_. ''e'') (UnaryExpr (''a.go'', 3) AND
        (Node ParenExpr [Node SelectorExpr [Ident ''v'' (Some 2), Ident ''number'' None]])) ex_loop] empty_visitor)"
  unfolding ex_loop_def
  by (rule wrapped_ref_one_warning [where ob = 2 and ko = 1 and vo = 2])
     (auto intro: wrapped_ref.intros simp: outermost.simps)



text \<open>
  C13. \<open>checkRange\<close> always returns \<open>true\<close> and prints nothing, so the
  \<open>#### RANGE LOOP ERROR\<close> branch of \<open>Visit\<close> is dead code.
\<close>

theorem check_range_returns_true:
  "check_range pp v rs = Inr (ok, v') \<Longrightarrow> ok \<and> printed v' = printed v"
  by (auto simp: check_range_eq split: if_splits)

theorem check_range_returns_true_witness:
  "check_range (\<lambda>_. ''e'') empty_visitor ex_loop =
     Inr (True, add_warnings (range_warnings (\<lambda>_. ''e'') ex_loop) empty_visitor)
   \<and> True \<and> printed (add_warnings (range_warnings (\<lambda>_. ''e'') ex_loop) empty_visitor) = printed empty_visitor"
proof -
  have run: "check_range (\<lambda>_. ''e'') empty_visitor ex_loop =
      Inr (True, add_warnings (range_warnings (\<lambda>_. ''e'') ex_loop) empty_visitor)"
    by (simp add: check_range_eq ex_loop_def)
  show ?thesis using run check_range_returns_true [OF run] by simp
qed

end
