(* ===== verification/Visitor.thy ===== *)
theory Visitor
  imports RangeCheck
begin

text \<open>
  \<open>visitor.Visit\<close> of \<open>src/libloopcheck/loopcheck.go\<close> (lines 116--135), the
  visitor \<open>CheckFiles\<close> hands to \<open>ast.Walk\<close> for each parsed file. On a
  \<open>range\<close> statement it runs \<open>checkRange\<close> and does not descend; everywhere else it
  descends. \<open>walk_visit\<close> computes a whole walk: the warnings of the outermost
  \<open>range\<close> statements, in pre-order, or the panic of the first malformed one.
\<close>

fun is_range :: "node \<Rightarrow> bool" where
  "is_range (RangeStmt _ _ _ _ _ _) = True"
| "is_range _ = False"

text \<open>
  \<open>debugf\<close> logs only when the constant \<open>debug\<close> is true, which it is not, so
  the two debugging calls have no effect and are left out.
\<close>

definition visit :: "(node \<Rightarrow> string) \<Rightarrow> visitor \<Rightarrow> node \<Rightarrow> panic + bool \<times> visitor" where
  "visit pp v node =
     (case node of
        RangeStmt _ _ _ _ _ _ \<Rightarrow>
          (case check_range pp v node of
             Inl e \<Rightarrow> Inl e
           | Inr (ok, v') \<Rightarrow>
               Inr (False, if ok then v' else v'\<lparr>printed := printed v' @ ''#### RANGE LOOP ERROR'' @ [CHR 0x0A]\<rparr>))
      | _ \<Rightarrow> Inr (True, v))"

text \<open>The warnings a walk over a tree contributes, when no loop header is malformed.\<close>

definition tree_warnings :: "(node \<Rightarrow> string) \<Rightarrow> node \<Rightarrow> warning list" where
  "tree_warnings pp n = concat (map (range_warnings pp) (outermost is_range n))"

definition tree_ok :: "node \<Rightarrow> bool" where
  "tree_ok n = (\<forall>rs \<in> set (outermost is_range n). range_ok rs)"

lemma visit_eval [walk_simps]:
  "\<not> is_range m \<Longrightarrow> visit pp v m = Inr (True, v)"
  "is_range m \<Longrightarrow> visit pp v m =
     (if range_ok m then Inr (False, add_warnings (range_warnings pp m) v) else Inl (Panic ''wtf''))"
  apply (cases m; simp add: visit_def check_range_eq)
  apply (cases m; simp add: visit_def check_range_eq)
  done

lemma walk_visit:
  "walk (visit pp) n v =
     (if tree_ok n then Inr (add_warnings (tree_warnings pp n) v) else Inl (Panic ''wtf''))"
proof -
  have "walk (visit pp) n v =
      fold_m (\<lambda>rs v. if range_ok rs then Inr (add_warnings (range_warnings pp rs) v) else Inl (Panic ''wtf''))
             (outermost is_range n) v"
    by (rule walk_outermost) (simp_all add: visit_eval)
  also have "\<dots> = (if \<forall>rs \<in> set (outermost is_range n). range_ok rs
                   then Inr (fold (\<lambda>rs. add_warnings (range_warnings pp rs)) (outermost is_range n) v)
                   else Inl (Panic ''wtf''))"
    by (rule fold_m_if) simp
  finally show ?thesis
    by (simp add: fold_add_warnings tree_warnings_def tree_ok_def)
qed

subsection \<open>Properties of the walk\<close>

lemma tree_warnings_elem:
  assumes "w \<in> set (tree_warnings pp n)"
  shows "\<exists>q t k vl x body u. RangeStmt q t k vl x body \<in> set (preorder n) \<and>
           u \<in> set (preorder body) \<and> is_addr u \<and> w = mk_warning pp u (RangeStmt q t k vl x body)"
proof -
  from assms obtain rs where rs: "rs \<in> set (outermost is_range n)" and w: "w \<in> set (range_warnings pp rs)"
    by (auto simp: tree_warnings_def)
  from rs have "is_range rs" by (rule outermost_sat)
  then obtain q t k vl x body where rs_eq: "rs = RangeStmt q t k vl x body"
    by (cases rs) auto
  from w rs_eq obtain u where u: "u \<in> set (outermost is_addr body)"
      and w_eq: "w = mk_warning pp u (RangeStmt q t k vl x body)"
    by (auto simp: set_addr_warnings split: if_splits)
  have "rs \<in> set (preorder n)" using rs outermost_subset by blast
  moreover have "u \<in> set (preorder body)" using u outermost_subset by blast
  moreover have "is_addr u" using u by (rule outermost_sat)
  ultimately show ?thesis using rs_eq w_eq by blast
qed

definition ex_tree :: node where
  "ex_tree = Node BlockStmt [Node ExprStmt [Ident ''f'' None], ex_loop]"

definition ex_bad_tree :: node where
  "ex_bad_tree = Node BlockStmt [ex_bad_loop, ex_loop]"

text \<open>
  C2. Refinement of the file walk: when every outermost \<open>range\<close> statement of a tree
  has well-formed slots, walking it with \<open>Visit\<close> appends, in pre-order, the
  warnings of each outermost \<open>range\<close> statement as \<open>range_warnings\<close> specifies; a
  \<open>range\<close> statement nested in another one is not visited on its own.
\<close>

theorem walk_visit_refines:
  "tree_ok n \<Longrightarrow> walk (visit pp) n v = Inr (add_warnings (tree_warnings pp n) v)"
  by (simp add: walk_visit)

theorem walk_visit_refines_witness:
  "tree_ok ex_tree \<and>
   walk (visit (\<lambda>_. ''e'')) ex_tree empty_visitor = Inr (add_warnings (tree_warnings (\<lambda>_. ''e'') ex_tree) empty_visitor)"
proof -
  have ok: "tree_ok ex_tree"
    by (simp add: tree_ok_def ex_tree_def ex_loop_def outermost.simps)
  show ?thesis using ok walk_visit_refines [OF ok] by simp
qed

text \<open>
  C6. A malformed \<open>range\<close> header anywhere among the outermost \<open>range\<close> statements of
  a tree makes the walk panic with \<open>"wtf"\<close>; the warnings gathered before are lost with
  the unwinding.
\<close>

theorem walk_visit_panics:
  "\<not> tree_ok n \<Longrightarrow> walk (visit pp) n v = Inl (Panic ''wtf'')"
  by (simp add: walk_visit)

theorem walk_visit_panics_witness:
  "\<not> tree_ok ex_bad_tree \<and> walk (visit (\<lambda>_. ''e'')) ex_bad_tree empty_visitor = Inl (Panic ''wtf'')"
proof -
  have bad: "\<not> tree_ok ex_bad_tree"
    by (simp add: tree_ok_def ex_bad_tree_def ex_bad_loop_def ex_loop_def outermost.simps)
  show ?thesis using bad walk_visit_panics [OF bad] by simp
qed

text \<open>
  C11. Attribution: every warning a walk produces pairs an address-of expression with a
  \<open>range\<close> statement of the tree whose body contains that expression; its usage text and
  position are the expression's, its range text and position the loop's.
\<close>

theorem tree_warnings_attribution:
  assumes "walk (visit pp) n v = Inr v'" and "w \<in> set (warnings v')" and "w \<notin> set (warnings v)"
  shows "\<exists>q t k vl x body u. RangeStmt q t k vl x body \<in> set (preorder n) \<and>
           u \<in> set (preorder body) \<and> is_addr u \<and>
           usageExpr w = str pp u \<and> usagePos w = node_pos u \<and>
           rangeExpr w = rangestr pp (RangeStmt q t k vl x body) \<and> rangePos w = q"
proof -
  from assms(1) have "v' = add_warnings (tree_warnings pp n) v"
    by (simp add: walk_visit split: if_splits)
  with assms(2,3) have "w \<in> set (tree_warnings pp n)" by simp
  then obtain q t k vl x body u where in_n: "RangeStmt q t k vl x body \<in> set (preorder n)"
      and u: "u \<in> set (preorder body)" "is_addr u"
      and w: "w = mk_warning pp u (RangeStmt q t k vl x body)"
    by (blast dest: tree_warnings_elem)
  from w have "usageExpr w = str pp u \<and> usagePos w = node_pos u \<and>
      rangeExpr w = rangestr pp (RangeStmt q t k vl x body) \<and> rangePos w = q"
    by (simp add: mk_warning_def)
  with in_n u show ?thesis by blast
qed

theorem tree_warnings_attribution_witness:
  "walk (visit (\<lambda>_. ''e'')) ex_tree empty_visitor = Inr (add_warnings (tree_warnings (\<lambda>_. ''e'') ex_tree) empty_visitor)
   \<and> mk_warning (\<lambda>_. ''e'') (UnaryExpr (''a.go'', 3) AND
        (Node ParenExpr [Node SelectorExpr [Ident ''v'' (Some 2), Ident ''number'' None]])) ex_loop
       \<in> set (warnings (add_warnings (tree_warnings (\<lambda>_. ''e'') ex_tree) empty_visitor))
   \<and> mk_warning (\<lambda>_. ''e'') (UnaryExpr (''a.go'', 3) AND
        (Node ParenExpr [Node SelectorExpr [Ident ''v'' (Some 2), Ident ''number'' None]])) ex_loop
       \<notin> set (warnings empty_visitor)
   \<and> (\<exists>q t k vl x body u. RangeStmt q t k vl x body \<in> set (preorder ex_tree) \<and>
        u \<in> set (preorder body) \<and> is_addr u \<and>
        usageExpr (mk_warning (\<lambda>_. ''e'') (UnaryExpr (''a.go'', 3) AND
          (Node ParenExpr [Node SelectorExpr [Ident ''v'' (Some 2), Ident ''number'' None]])) ex_loop) = str (\<lambda>_. ''e'') u \<and>
        usagePos (mk_warning (\<lambda>_. ''e'') (UnaryExpr (''a.go'', 3) AND
          (Node ParenExpr [Node SelectorExpr [Ident ''v'' (Some 2), Ident ''number'' None]])) ex_loop) = node_pos u \<and>
        rangeExpr (mk_warning (\<lambda>_. ''e'') (UnaryExpr (''a.go'', 3) AND
          (Node ParenExpr [Node SelectorExpr [Ident ''v'' (Some 2), Ident ''number'' None]])) ex_loop)
          = rangestr (\<lambda>_. ''e'') (RangeStmt q t k vl x body) \<and>
        rangePos (mk_warning (\<lambda>_. ''e'') (UnaryExpr (''a.go'', 3) AND
          (Node ParenExpr [Node SelectorExpr [Ident ''v'' (Some 2), Ident ''number'' None]])) ex_loop) = q)"
proof -
  have run: "walk (visit (\<lambda>_. ''e'')) ex_tree empty_visitor =
      Inr (add_warnings (tree_warnings (\<lambda>_. ''e'') ex_tree) empty_visitor)"
    by (simp add: walk_visit tree_ok_def ex_tree_def ex_loop_def outermost.simps)
  have inw: "mk_warning (\<lambda>_. ''e'') (UnaryExpr (''a.go'', 3) AND
        (Node ParenExpr [Node SelectorExpr [Ident ''v'' (Some 2), Ident ''number'' None]])) ex_loop
       \<in> set (warnings (add_warnings (tree_warnings (\<lambda>_. ''e'') ex_tree) empty_visitor))"
    by (simp add: tree_warnings_def ex_tree_def ex_loop_def outermost.simps addr_warnings_def
        bound_refs_def empty_visitor_def)
  have notin: "mk_warning (\<lambda>_. ''e'') (UnaryExpr (''a.go'', 3) AND
        (Node ParenExpr [Node SelectorExpr [Ident ''v'' (Some 2), Ident ''number'' None]])) ex_loop
       \<notin> set (warnings empty_visitor)"
    by (simp add: empty_visitor_def)
  show ?thesis using run inw notin tree_warnings_attribution [OF run inw notin] by blast
qed

text \<open>
  C12. The walk never writes to standard output: the \<open>#### RANGE LOOP ERROR\<close> line of
  \<open>Visit\<close> is never printed.
\<close>

theorem walk_visit_printed:
  "walk (visit pp) n v = Inr v' \<Longrightarrow> printed v' = printed v"
  by (auto simp: walk_visit split: if_splits)

theorem walk_visit_printed_witness:
  "walk (visit (\<lambda>_. ''e'')) ex_tree empty_visitor = Inr (add_warnings (tree_warnings (\<lambda>_. ''e'') ex_tree) empty_visitor)
   \<and> printed (add_warnings (tree_warnings (\<lambda>_. ''e'') ex_tree) empty_visitor) = printed empty_visitor"
proof -
  have run: "walk (visit (\<lambda>_. ''e'')) ex_tree empty_visitor =
      Inr (add_warnings (tree_warnings (\<lambda>_. ''e'') ex_tree) empty_visitor)"
    by (simp add: walk_visit tree_ok_def ex_tree_def ex_loop_def outermost.simps)
  show ?thesis using run walk_visit_printed [OF run] by simp
qed

lemma is_range_rename [simp]: "is_range (rename_idents f m) = is_range m"
  by (cases m) auto

lemma tree_ok_rename [simp]: "tree_ok (rename_idents f n) = tree_ok n"
  by (simp add: tree_ok_def outermost_rename)

lemma tree_warnings_pos_rename:
  "map warning_pos (tree_warnings pp (rename_idents f n)) = map warning_pos (tree_warnings pp n)"
  by (simp add: tree_warnings_def outermost_rename map_concat comp_def range_warnings_pos_rename)

text \<open>
  C25. Identifiers are told apart by the objects the parser resolved them to, never by
  their names: renaming the identifiers of a tree changes neither whether the walk
  panics nor the usage and loop positions of the warnings it reports, in order.
\<close>

theorem walk_visit_names_irrelevant:
  "map_sum id (\<lambda>v'. map warning_pos (warnings v')) (walk (visit pp) (rename_idents f n) v) =
   map_sum id (\<lambda>v'. map warning_pos (warnings v')) (walk (visit pp) n v)"
  by (simp add: walk_visit tree_warnings_pos_rename)

end
