(* ===== verification/CheckFiles.thy ===== *)
theory CheckFiles
  imports Visitor
begin

text \<open>
  The driver: \<open>CheckFiles\<close> of \<open>src/libloopcheck/loopcheck.go\<close> (lines 25--52),
  which parses the files in order, checks that they share one package, walks each with
  the visitor and finally prints two lines per warning; and \<open>main\<close> of
  \<open>src/main.go\<close>, which turns the outcome into an exit status. The parser
  \<open>go/parser.ParseFile\<close> is the parameter \<open>parse\<close> (an error text or a parsed
  file), the printer the parameter \<open>pp\<close>. The number format \<open>%d\<close> of
  \<open>fmt\<close> is \<open>show_nat\<close>, with its inverse \<open>read_nat\<close>.
\<close>

record go_file =
  file_pkg :: string          \<comment> \<open>\<open>parsed.Name.Name\<close>\<close>
  file_decls :: "node list"   \<comment> \<open>\<open>parsed.Decls\<close>\<close>

text \<open>\<open>ast.Walk\<close> on an \<open>*ast.File\<close> visits the package name, then the declarations.\<close>

definition file_node :: "go_file \<Rightarrow> node" where
  "file_node f = Node File (Ident (file_pkg f) None # file_decls f)"

datatype check_error =
    ParseError string                         \<comment> \<open>the error of \<open>parser.ParseFile\<close>\<close>
  | PackageMismatch string string string      \<comment> \<open>file name, its package, the expected one\<close>

fun error_string :: "check_error \<Rightarrow> string" where
  "error_string (ParseError m) = m"
| "error_string (PackageMismatch f got want) = f @ '' is in package '' @ got @ '', not '' @ want"

abbreviation newline :: string where
  "newline \<equiv> [CHR 0x0A]"

subsection \<open>Decimal numbers\<close>

fun show_nat :: "nat \<Rightarrow> string" where
  "show_nat n = (if n < 10 then [char_of (48 + n)] else show_nat (n div 10) @ [char_of (48 + n mod 10)])"

declare show_nat.simps [simp del]

definition is_digit :: "char \<Rightarrow> bool" where
  "is_digit c = ((48::nat) \<le> of_char c \<and> of_char c < (58::nat))"

definition read_nat :: "string \<Rightarrow> nat option" where
  "read_nat s =
     (if s \<noteq> [] \<and> list_all is_digit s
      then Some (foldl (\<lambda>a c. 10 * a + (of_char c - 48)) 0 s) else None)"

subsection \<open>The report\<close>

text \<open>
  \<^verbatim>\<open>
  fmt.Printf("%s:%d: takes address of loop variable: %s\n", ...)
  fmt.Printf("  range at line %d: %s\n", rangePosition.Line, warn.rangeExpr)
  \<close>
\<close>

definition report_warning :: "warning \<Rightarrow> string" where
  "report_warning w =
     fst (usagePos w) @ '':'' @ show_nat (snd (usagePos w)) @ '': takes address of loop variable: ''
       @ usageExpr w @ newline
     @ ''  range at line '' @ show_nat (snd (rangePos w)) @ '': '' @ rangeExpr w @ newline"

definition report :: "warning list \<Rightarrow> string" where
  "report ws = concat (map report_warning ws)"

subsection \<open>\<open>CheckFiles\<close>\<close>

text \<open>The package check of lines 34--38: the package to expect from now on, or the error.\<close>

definition pkg_check :: "string \<Rightarrow> string \<Rightarrow> go_file \<Rightarrow> check_error + string" where
  "pkg_check pkgName filename parsed =
     (if pkgName = '''' then Inr (file_pkg parsed)
      else if file_pkg parsed \<noteq> pkgName
      then Inl (PackageMismatch filename (file_pkg parsed) pkgName)
      else Inr pkgName)"

text \<open>The loop over the paths (lines 29--41); a returned error ends it.\<close>

fun check_loop ::
  "(string \<Rightarrow> string + go_file) \<Rightarrow> (node \<Rightarrow> string) \<Rightarrow> string \<Rightarrow> visitor \<Rightarrow> string list \<Rightarrow>
   panic + check_error option \<times> visitor" where
  "check_loop parse pp pkgName v [] = Inr (None, v)"
| "check_loop parse pp pkgName v (filename # paths) =
     (case parse filename of
        Inl err \<Rightarrow> Inr (Some (ParseError err), v)
      | Inr parsed \<Rightarrow>
          (case pkg_check pkgName filename parsed of
             Inl err \<Rightarrow> Inr (Some err, v)
           | Inr pkgName' \<Rightarrow>
               (case walk (visit pp) (file_node parsed) v of
                  Inl e \<Rightarrow> Inl e
                | Inr v' \<Rightarrow> check_loop parse pp pkgName' v' paths)))"

text \<open>
  \<open>CheckFiles\<close>: the returned error (if any) and everything written to standard
  output; a panic is \<open>Inl\<close>.
\<close>

definition check_files ::
  "(string \<Rightarrow> string + go_file) \<Rightarrow> (node \<Rightarrow> string) \<Rightarrow> string list \<Rightarrow>
   panic + check_error option \<times> string" where
  "check_files parse pp paths =
     (case check_loop parse pp '''' empty_visitor paths of
        Inl e \<Rightarrow> Inl e
      | Inr (Some err, v) \<Rightarrow> Inr (Some err, printed v)
      | Inr (None, v) \<Rightarrow> Inr (None, printed v @ report (warnings v)))"

subsection \<open>\<open>main\<close>\<close>

text \<open>
  The outcome of the process: exit status, standard output, standard error. A Go panic
  exits with status 2 after printing \<open>panic: \<close> and the value to standard error; the
  goroutine trace that follows is not modelled.
\<close>

definition usage_text :: string where
  "usage_text = ''loopcheck (files to check)'' @ newline
     @ ''  checks a single package for loop variables that might escape'' @ newline"

definition main_go ::
  "(string \<Rightarrow> string + go_file) \<Rightarrow> (node \<Rightarrow> string) \<Rightarrow> string list \<Rightarrow> nat \<times> string \<times> string" where
  "main_go parse pp args =
     (if length args \<le> 1 then (1, '''', usage_text)
      else (case check_files parse pp (tl args) of
              Inl (Panic m) \<Rightarrow> (2, '''', ''panic: '' @ m @ newline)
            | Inr (Some err, out) \<Rightarrow> (1, out, ''error: failed to check files: '' @ error_string err @ newline)
            | Inr (None, out) \<Rightarrow> (0, out, '''')))"

subsection \<open>Properties of the driver\<close>

text \<open>The warnings of a run over files that all parse, in the order the files were given.\<close>

definition files_warnings :: "(node \<Rightarrow> string) \<Rightarrow> go_file list \<Rightarrow> warning list" where
  "files_warnings pp fs = concat (map (\<lambda>f. tree_warnings pp (file_node f)) fs)"

lemma files_warnings_simps [simp]:
  "files_warnings pp [] = []"
  "files_warnings pp (f # fs) = tree_warnings pp (file_node f) @ files_warnings pp fs"
  by (simp_all add: files_warnings_def)

lemma check_loop_prefix:
  assumes "map parse ps = map Inr fs"
    and "\<forall>f \<in> set fs. file_pkg f = pkg \<and> tree_ok (file_node f)"
    and "pkg \<noteq> ''''" and "pkgName = '''' \<or> pkgName = pkg"
  shows "check_loop parse pp pkgName v (ps @ rest) =
           check_loop parse pp (if fs = [] then pkgName else pkg) (add_warnings (files_warnings pp fs) v) rest"
  using assms
proof (induction ps arbitrary: fs v pkgName)
  case Nil
  then show ?case by simp
next
  case (Cons p ps)
  from Cons.prems(1) obtain f fs' where fs: "fs = f # fs'" and pf: "parse p = Inr f"
      and rest: "map parse ps = map Inr fs'"
    by (auto simp: map_eq_Cons_conv)
  from Cons.prems(2) fs have f: "file_pkg f = pkg" "tree_ok (file_node f)" by auto
  with Cons.prems(3,4) have pc: "pkg_check pkgName p f = Inr pkg"
    by (auto simp: pkg_check_def)
  have "check_loop parse pp pkg (add_warnings (tree_warnings pp (file_node f)) v) (ps @ rest) =
      check_loop parse pp (if fs' = [] then pkg else pkg)
        (add_warnings (files_warnings pp fs') (add_warnings (tree_warnings pp (file_node f)) v)) rest"
    using Cons.prems(2,3) fs rest by (intro Cons.IH) auto
  with pf pc f fs show ?case by (simp add: walk_visit)
qed

lemma check_loop_success:
  assumes "check_loop parse pp pkgName v ps = Inr (None, v')"
    and "\<forall>p f. parse p = Inr f \<longrightarrow> file_pkg f \<noteq> ''''"
  shows "\<exists>fs. map parse ps = map Inr fs \<and>
           (\<forall>f \<in> set fs. tree_ok (file_node f) \<and>
              file_pkg f = (if pkgName = '''' then file_pkg (hd fs) else pkgName)) \<and>
           v' = add_warnings (files_warnings pp fs) v"
  using assms
proof (induction ps arbitrary: pkgName v)
  case Nil
  then show ?case by simp
next
  case (Cons p ps)
  obtain f where pf: "parse p = Inr f"
    using Cons.prems(1) by (cases "parse p") auto
  define pk where "pk = (if pkgName = '''' then file_pkg f else pkgName)"
  have pc: "pkg_check pkgName p f = Inr pk" and fp: "file_pkg f = pk"
    using Cons.prems(1) pf by (auto simp: pkg_check_def pk_def split: if_splits)
  have pk_ne: "pk \<noteq> ''''"
    using Cons.prems(2) pf fp by auto
  have ok: "tree_ok (file_node f)"
    and run: "check_loop parse pp pk (add_warnings (tree_warnings pp (file_node f)) v) ps = Inr (None, v')"
    using Cons.prems(1) pf pc by (auto simp: walk_visit split: if_splits)
  obtain fs where fs: "map parse ps = map Inr fs"
      and all: "\<forall>g \<in> set fs. tree_ok (file_node g) \<and> file_pkg g = pk"
      and v': "v' = add_warnings (files_warnings pp fs) (add_warnings (tree_warnings pp (file_node f)) v)"
    using Cons.IH [OF run Cons.prems(2)] pk_ne by auto
  show ?case
    by (rule exI [of _ "f # fs"]) (use pf fs all ok fp v' in \<open>auto simp: pk_def\<close>)
qed

lemma check_loop_grows:
  "check_loop parse pp pkgName v ps = Inr (r, v') \<Longrightarrow> \<exists>ws. v' = add_warnings ws v"
proof (induction ps arbitrary: pkgName v)
  case Nil
  then show ?case by (auto intro: exI [of _ "[]"])
next
  case (Cons p ps)
  show ?case
  proof (cases "parse p")
    case (Inl err)
    with Cons.prems show ?thesis by (auto intro: exI [of _ "[]"])
  next
    case (Inr f)
    note pf = this
    show ?thesis
    proof (cases "pkg_check pkgName p f")
      case (Inl err)
      with Cons.prems pf show ?thesis by (auto intro: exI [of _ "[]"])
    next
      case (Inr pkg')
      with Cons.prems pf have
        run: "check_loop parse pp pkg' (add_warnings (tree_warnings pp (file_node f)) v) ps = Inr (r, v')"
        by (auto simp: walk_visit split: if_splits)
      from Cons.IH [OF run] show ?thesis by (metis add_warnings_add)
    qed
  qed
qed

text \<open>
  A file that parses and passes the package check but has a malformed loop header ends
  the loop with the panic, whatever paths come after it.
\<close>

lemma check_loop_bad_file:
  assumes "parse p = Inr g" and "file_pkg g = pkg" and "pkgName = '''' \<or> pkgName = pkg"
    and "\<not> tree_ok (file_node g)"
  shows "check_loop parse pp pkgName v (p # qs) = Inl (Panic ''wtf'')"
  using assms by (auto simp: pkg_check_def walk_visit)

lemma show_nat_digits: "list_all is_digit (show_nat n) \<and> show_nat n \<noteq> []"
proof (induction n rule: show_nat.induct)
  case (1 n)
  then show ?case by (simp add: show_nat.simps [of n] is_digit_def)
qed

lemma foldl_show_nat: "foldl (\<lambda>a c. 10 * a + (of_char c - 48)) 0 (show_nat n) = n"
proof (induction n rule: show_nat.induct)
  case (1 n)
  then show ?case by (simp add: show_nat.simps [of n])
qed

lemma read_show_nat: "read_nat (show_nat n) = Some n"
  using show_nat_digits [of n] by (simp add: read_nat_def foldl_show_nat)

lemma takeWhile_digits:
  "list_all is_digit xs \<Longrightarrow> \<not> is_digit c \<Longrightarrow> takeWhile is_digit (xs @ c # ys) = xs"
  by (induction xs) auto

lemma newline_not_show_nat: "CHR 0x0A \<notin> set (show_nat n)"
  using show_nat_digits [of n] by (auto simp: list_all_iff is_digit_def)

definition ex_file :: go_file where
  "ex_file = \<lparr>file_pkg = ''main'', file_decls = [Node FuncDecl [Ident ''main'' (Some 0), ex_tree]]\<rparr>"

definition ex_other_pkg :: go_file where
  "ex_other_pkg = \<lparr>file_pkg = ''other'', file_decls = []\<rparr>"

definition ex_parse :: "string \<Rightarrow> string + go_file" where
  "ex_parse path =
     (if path = ''a.go'' then Inr ex_file
      else if path = ''b.go'' then Inr ex_other_pkg
      else if path = ''c.go'' then Inr \<lparr>file_pkg = ''main'', file_decls = [ex_bad_tree]\<rparr>
      else Inl (path @ '': no such file''))"

lemma ex_file_ok: "tree_ok (file_node ex_file)"
  by (simp add: tree_ok_def file_node_def ex_file_def ex_tree_def ex_loop_def outermost.simps)

text \<open>
  C3. A run over files that all parse, share one package and have well-formed loop
  headers returns no error and prints, for each warning of each file in the order the
  files were given, the two report lines.
\<close>

theorem check_files_output:
  assumes "map parse paths = map Inr fs"
    and "\<forall>f \<in> set fs. file_pkg f = pkg \<and> tree_ok (file_node f)" and "pkg \<noteq> ''''"
  shows "check_files parse pp paths = Inr (None, report (files_warnings pp fs))"
  using check_loop_prefix [OF assms, of "''''" pp empty_visitor "[]"]
  by (simp add: check_files_def empty_visitor_def)

theorem check_files_output_witness:
  "map ex_parse [''a.go'', ''a.go''] = map Inr [ex_file, ex_file]
   \<and> ''main'' \<noteq> ''''
   \<and> check_files ex_parse (\<lambda>_. ''e'') [''a.go'', ''a.go''] =
       Inr (None, report (files_warnings (\<lambda>_. ''e'') [ex_file, ex_file]))"
proof -
  have h: "map ex_parse [''a.go'', ''a.go''] = map Inr [ex_file, ex_file]"
    "\<forall>f \<in> set [ex_file, ex_file]. file_pkg f = ''main'' \<and> tree_ok (file_node f)"
    "''main'' \<noteq> ''''"
    by (simp_all add: ex_parse_def ex_file_ok) (simp add: ex_file_def)
  show ?thesis using h check_files_output [OF h, of "\<lambda>_. ''e''"] by simp
qed

text \<open>
  C26. Conversely, every run that returns no error is one of those: when the parser never
  yields an empty package name, a run without error has parsed every file, all of one
  package and with well-formed loop headers, and has printed exactly their report.
\<close>

theorem check_files_success_inv:
  assumes "check_files parse pp paths = Inr (None, out)"
    and "\<forall>p f. parse p = Inr f \<longrightarrow> file_pkg f \<noteq> ''''"
  shows "\<exists>fs. map parse paths = map Inr fs \<and>
           (\<forall>f \<in> set fs. file_pkg f = file_pkg (hd fs) \<and> tree_ok (file_node f)) \<and>
           out = report (files_warnings pp fs)"
proof -
  obtain v' where run: "check_loop parse pp '''' empty_visitor paths = Inr (None, v')"
      and out: "out = printed v' @ report (warnings v')"
    using assms(1) by (auto simp: check_files_def split: sum.splits option.splits)
  from check_loop_success [OF run assms(2)] show ?thesis
    using out by (auto simp: empty_visitor_def)
qed

theorem check_files_success_inv_witness:
  "check_files ex_parse (\<lambda>_. ''e'') [''a.go'', ''a.go''] =
     Inr (None, report (files_warnings (\<lambda>_. ''e'') [ex_file, ex_file]))
   \<and> (\<exists>fs. map ex_parse [''a.go'', ''a.go''] = map Inr fs
           \<and> report (files_warnings (\<lambda>_. ''e'') [ex_file, ex_file]) = report (files_warnings (\<lambda>_. ''e'') fs))"
proof -
  have run: "check_files ex_parse (\<lambda>_. ''e'') [''a.go'', ''a.go''] =
     Inr (None, report (files_warnings (\<lambda>_. ''e'') [ex_file, ex_file]))"
    by code_simp
  have pk: "\<forall>p f. ex_parse p = Inr f \<longrightarrow> file_pkg f \<noteq> ''''"
    by (simp add: ex_parse_def ex_file_def ex_other_pkg_def)
  show ?thesis
    using run check_files_success_inv [OF run pk] by blast
qed

text \<open>
  C7. Fail fast on a parse error: when a file fails to parse, the run returns that
  error and prints nothing, not even the warnings of the files before it.
\<close>

theorem check_files_parse_error:
  assumes "map parse ps = map Inr fs"
    and "\<forall>f \<in> set fs. file_pkg f = pkg \<and> tree_ok (file_node f)" and "pkg \<noteq> ''''"
    and "parse bad = Inl e"
  shows "check_files parse pp (ps @ bad # rest) = Inr (Some (ParseError e), '''')"
  using check_loop_prefix [OF assms(1-3), of "''''" pp empty_visitor "bad # rest"] assms(4)
  by (simp add: check_files_def empty_visitor_def)

theorem check_files_parse_error_witness:
  "map ex_parse [''a.go''] = map Inr [ex_file]
   \<and> ''main'' \<noteq> ''''
   \<and> ex_parse ''x.go'' = Inl ''x.go: no such file''
   \<and> check_files ex_parse (\<lambda>_. ''e'') ([''a.go''] @ ''x.go'' # []) =
       Inr (Some (ParseError ''x.go: no such file''), '''')"
proof -
  have h: "map ex_parse [''a.go''] = map Inr [ex_file]"
    "\<forall>f \<in> set [ex_file]. file_pkg f = ''main'' \<and> tree_ok (file_node f)"
    "''main'' \<noteq> ''''" "ex_parse ''x.go'' = Inl ''x.go: no such file''"
    by (simp_all add: ex_parse_def ex_file_ok) (simp add: ex_file_def)
  show ?thesis using h check_files_parse_error [OF h, of "\<lambda>_. ''e''" "[]"] by simp
qed

text \<open>
  C8. A file of another package than the first file's ends the run with the mismatch
  error naming the file, its package and the expected one, and nothing is printed.
\<close>

theorem check_files_mismatch:
  assumes "map parse ps = map Inr fs" and "fs \<noteq> []"
    and "\<forall>f \<in> set fs. file_pkg f = pkg \<and> tree_ok (file_node f)" and "pkg \<noteq> ''''"
    and "parse bad = Inr g" and "file_pkg g \<noteq> pkg"
  shows "check_files parse pp (ps @ bad # rest) = Inr (Some (PackageMismatch bad (file_pkg g) pkg), '''')"
  using check_loop_prefix [OF assms(1,3,4), of "''''" pp empty_visitor "bad # rest"] assms(2,4-6)
  by (simp add: check_files_def empty_visitor_def pkg_check_def)

theorem check_files_mismatch_witness:
  "map ex_parse [''a.go''] = map Inr [ex_file] \<and> [ex_file] \<noteq> []
   \<and> ''main'' \<noteq> ''''
   \<and> ex_parse ''b.go'' = Inr ex_other_pkg \<and> file_pkg ex_other_pkg \<noteq> ''main''
   \<and> check_files ex_parse (\<lambda>_. ''e'') ([''a.go''] @ ''b.go'' # []) =
       Inr (Some (PackageMismatch ''b.go'' (file_pkg ex_other_pkg) ''main''), '''')"
proof -
  have h: "map ex_parse [''a.go''] = map Inr [ex_file]" "[ex_file] \<noteq> []"
    "\<forall>f \<in> set [ex_file]. file_pkg f = ''main'' \<and> tree_ok (file_node f)"
    "''main'' \<noteq> ''''" "ex_parse ''b.go'' = Inr ex_other_pkg" "file_pkg ex_other_pkg \<noteq> ''main''"
    by (simp_all add: ex_parse_def ex_file_ok) (simp_all add: ex_file_def ex_other_pkg_def)
  show ?thesis using h check_files_mismatch [OF h, of "\<lambda>_. ''e''" "[]"] by simp
qed

text \<open>
  C32. A run that ends with an error prints nothing at all: whichever file fails to
  parse or has the wrong package, and however many warnings the files before it
  produced, the output returned with the error is empty.
\<close>

theorem check_files_error_silent:
  assumes "check_files parse pp paths = Inr (Some err, out)"
  shows "out = ''''"
proof -
  obtain v where run: "check_loop parse pp '''' empty_visitor paths = Inr (Some err, v)"
      and out: "out = printed v"
    using assms by (auto simp: check_files_def split: sum.splits option.splits)
  from check_loop_grows [OF run] obtain ws where "v = add_warnings ws empty_visitor" ..
  with out show ?thesis by (simp add: empty_visitor_def)
qed

theorem check_files_error_silent_witness:
  "check_files ex_parse (\<lambda>_. ''e'') [''a.go'', ''b.go''] =
     Inr (Some (PackageMismatch ''b.go'' ''other'' ''main''), '''')
   \<and> tree_warnings (\<lambda>_. ''e'') (file_node ex_file) \<noteq> []"
proof -
  have run: "check_files ex_parse (\<lambda>_. ''e'') [''a.go'', ''b.go''] =
     Inr (Some (PackageMismatch ''b.go'' ''other'' ''main''), '''')"
    by code_simp
  have "tree_warnings (\<lambda>_. ''e'') (file_node ex_file) \<noteq> []"
    by code_simp
  then show ?thesis using run check_files_error_silent [OF run] by simp
qed

text \<open>
  C33. Parsing and checking are interleaved, file by file: a malformed loop header in a
  file panics before the later files are parsed, so a later file that does not parse
  is never reported; the run panics whatever follows.
\<close>

theorem check_files_panic_before_parse_error:
  assumes "map parse ps = map Inr fs"
    and "\<forall>f \<in> set fs. file_pkg f = pkg \<and> tree_ok (file_node f)" and "pkg \<noteq> ''''"
    and "parse p = Inr g" and "file_pkg g = pkg" and "\<not> tree_ok (file_node g)"
  shows "check_files parse pp (ps @ p # qs) = Inl (Panic ''wtf'')"
proof -
  have "check_loop parse pp '''' empty_visitor (ps @ p # qs) =
      check_loop parse pp (if fs = [] then '''' else pkg)
        (add_warnings (files_warnings pp fs) empty_visitor) (p # qs)"
    by (rule check_loop_prefix [OF assms(1-3)]) simp
  also have "\<dots> = Inl (Panic ''wtf'')"
    by (rule check_loop_bad_file [where parse = parse, OF assms(4,5) _ assms(6)]) simp
  finally show ?thesis by (simp add: check_files_def)
qed

theorem check_files_panic_before_parse_error_witness:
  "map ex_parse [''a.go''] = map Inr [ex_file] \<and> ''main'' \<noteq> ''''
   \<and> ex_parse ''c.go'' = Inr \<lparr>file_pkg = ''main'', file_decls = [ex_bad_tree]\<rparr>
   \<and> file_pkg \<lparr>file_pkg = ''main'', file_decls = [ex_bad_tree]\<rparr> = ''main''
   \<and> \<not> tree_ok (file_node \<lparr>file_pkg = ''main'', file_decls = [ex_bad_tree]\<rparr>)
   \<and> ex_parse ''missing.go'' = Inl ''missing.go: no such file''
   \<and> check_files ex_parse (\<lambda>_. ''e'') ([''a.go''] @ ''c.go'' # [''missing.go'']) = Inl (Panic ''wtf'')"
proof -
  have h1: "map ex_parse [''a.go''] = map Inr [ex_file]" by (simp add: ex_parse_def)
  have h2: "\<forall>f \<in> set [ex_file]. file_pkg f = ''main'' \<and> tree_ok (file_node f)"
    by (simp add: ex_file_ok) (simp add: ex_file_def)
  have h3: "''main'' \<noteq> ''''" by simp
  have h4: "ex_parse ''c.go'' = Inr \<lparr>file_pkg = ''main'', file_decls = [ex_bad_tree]\<rparr>"
    by (simp add: ex_parse_def)
  have h5: "file_pkg \<lparr>file_pkg = ''main'', file_decls = [ex_bad_tree]\<rparr> = ''main''" by simp
  have h6: "\<not> tree_ok (file_node \<lparr>file_pkg = ''main'', file_decls = [ex_bad_tree]\<rparr>)"
    by (simp add: tree_ok_def file_node_def ex_bad_tree_def ex_bad_loop_def ex_loop_def outermost.simps)
  have h7: "ex_parse ''missing.go'' = Inl ''missing.go: no such file''" by (simp add: ex_parse_def)
  show ?thesis
    using h1 h3 h4 h5 h6 h7 check_files_panic_before_parse_error [OF h1 h2 h3 h4 h5 h6, of "\<lambda>_. ''e''" "[''missing.go'']"]
    by simp
qed

text \<open>
  C14. The line number printed by \<open>%d\<close> in a report's first line reads back as the
  usage line: the digits after the file name and its colon are the decimal notation of
  the line.
\<close>

theorem report_line_roundtrip:
  "read_nat (takeWhile is_digit (drop (Suc (length (fst (usagePos w)))) (report_warning w))) =
     Some (snd (usagePos w))"
proof -
  have "\<not> is_digit (CHR '':'')" by (simp add: is_digit_def)
  then show ?thesis
    using show_nat_digits [of "snd (usagePos w)"]
    by (simp add: report_warning_def takeWhile_digits read_show_nat)
qed

text \<open>
  C15. Two lines per warning: when no file name or rendered text contains a line break,
  the report has exactly two newline characters for each warning.
\<close>

theorem report_two_lines:
  assumes "\<forall>w \<in> set ws. CHR 0x0A \<notin> set (fst (usagePos w) @ usageExpr w @ rangeExpr w)"
  shows "length (filter (\<lambda>c. c = CHR 0x0A) (report ws)) = 2 * length ws"
  using assms
proof (induction ws)
  case Nil
  then show ?case by (simp add: report_def)
next
  case (Cons w ws)
  have "length (filter (\<lambda>c. c = CHR 0x0A) (report_warning w)) = 2"
    using Cons.prems newline_not_show_nat
    by (auto simp: report_warning_def filter_empty_conv)
  with Cons show ?case by (simp add: report_def)
qed

theorem report_two_lines_witness:
  "length (filter (\<lambda>c. c = CHR 0x0A) (report (files_warnings (\<lambda>_. ''e'') [ex_file]))) =
       2 * length (files_warnings (\<lambda>_. ''e'') [ex_file])"
proof -
  have h: "\<forall>w \<in> set (files_warnings (\<lambda>_. ''e'') [ex_file]).
      CHR 0x0A \<notin> set (fst (usagePos w) @ usageExpr w @ rangeExpr w)"
    by (simp add: tree_warnings_def file_node_def ex_file_def ex_tree_def ex_loop_def outermost.simps
        addr_warnings_def bound_refs_def mk_warning_def str_def)
  show ?thesis using h report_two_lines [OF h] by simp
qed

text \<open>
  C16. A successful run of the command exits with status 0, prints the report of all
  warnings to standard output and nothing to standard error.
\<close>

theorem main_go_success:
  assumes "map parse paths = map Inr fs" and "paths \<noteq> []"
    and "\<forall>f \<in> set fs. file_pkg f = pkg \<and> tree_ok (file_node f)" and "pkg \<noteq> ''''"
  shows "main_go parse pp (prog # paths) = (0, report (files_warnings pp fs), '''')"
proof -
  have "check_files parse pp paths = Inr (None, report (files_warnings pp fs))"
    using check_loop_prefix [OF assms(1,3,4), of "''''" pp empty_visitor "[]"]
    by (simp add: check_files_def empty_visitor_def)
  with assms(2) show ?thesis by (simp add: main_go_def)
qed

theorem main_go_success_witness:
  "map ex_parse [''a.go''] = map Inr [ex_file] \<and> [''a.go''] \<noteq> []
   \<and> ''main'' \<noteq> ''''
   \<and> main_go ex_parse (\<lambda>_. ''e'') [''loopcheck'', ''a.go''] =
       (0, report (files_warnings (\<lambda>_. ''e'') [ex_file]), '''')"
proof -
  have h: "map ex_parse [''a.go''] = map Inr [ex_file]" "[''a.go''] \<noteq> []"
    "\<forall>f \<in> set [ex_file]. file_pkg f = ''main'' \<and> tree_ok (file_node f)" "''main'' \<noteq> ''''"
    by (simp_all add: ex_parse_def ex_file_ok) (simp add: ex_file_def)
  show ?thesis using h main_go_success [OF h, of "\<lambda>_. ''e''" "''loopcheck''"] by simp
qed

text \<open>
  C17. A malformed \<open>range\<close> header in any of the files, all of which parse and share a
  package, crashes the command: exit status 2, nothing on standard output, and the panic
  value \<open>wtf\<close> on standard error.
\<close>

theorem main_go_panics:
  assumes "map parse paths = map Inr fs"
    and "\<forall>f \<in> set fs. file_pkg f = pkg" and "pkg \<noteq> ''''"
    and "\<exists>f \<in> set fs. \<not> tree_ok (file_node f)"
  shows "main_go parse pp (prog # paths) = (2, '''', ''panic: wtf'' @ newline)"
proof -
  obtain ps1 g fs2 where split: "fs = ps1 @ g # fs2" and ok1: "\<forall>f \<in> set ps1. tree_ok (file_node f)"
      and bad: "\<not> tree_ok (file_node g)"
    using assms(4) split_list_first_prop [of fs "\<lambda>f. \<not> tree_ok (file_node f)"] by blast
  from assms(1) split have "map parse paths = map Inr ps1 @ map Inr (g # fs2)" by simp
  then obtain qs1 qs where paths: "paths = qs1 @ qs" and m1: "map parse qs1 = map Inr ps1"
      and m2: "map parse qs = map Inr (g # fs2)"
    by (auto simp only: map_eq_append_conv)
  from m2 obtain b qs2 where qs: "qs = b # qs2" and pb: "parse b = Inr g"
    by (auto simp only: list.map map_eq_Cons_conv sum.inject)
  have ok: "\<forall>f \<in> set ps1. file_pkg f = pkg \<and> tree_ok (file_node f)"
    using ok1 assms(2) split by auto
  have gp: "file_pkg g = pkg" using assms(2) split by auto
  have "check_loop parse pp '''' empty_visitor paths =
      check_loop parse pp (if ps1 = [] then '''' else pkg)
        (add_warnings (files_warnings pp ps1) empty_visitor) (b # qs2)"
    using check_loop_prefix [OF m1 ok assms(3), of "''''" pp empty_visitor "b # qs2"]
    by (simp add: paths qs)
  also have "\<dots> = Inl (Panic ''wtf'')"
    by (rule check_loop_bad_file [where parse = parse, OF pb gp _ bad]) simp
  finally show ?thesis
    using paths qs by (simp add: main_go_def check_files_def)
qed

theorem main_go_panics_witness:
  "map ex_parse [''a.go'', ''c.go''] = map Inr [ex_file, \<lparr>file_pkg = ''main'', file_decls = [ex_bad_tree]\<rparr>]
   \<and> ''main'' \<noteq> ''''
   \<and> (\<exists>f \<in> set [ex_file, \<lparr>file_pkg = ''main'', file_decls = [ex_bad_tree]\<rparr>]. \<not> tree_ok (file_node f))
   \<and> main_go ex_parse (\<lambda>_. ''e'') [''loopcheck'', ''a.go'', ''c.go''] = (2, '''', ''panic: wtf'' @ newline)"
proof -
  have h1: "map ex_parse [''a.go'', ''c.go''] = map Inr [ex_file, \<lparr>file_pkg = ''main'', file_decls = [ex_bad_tree]\<rparr>]"
    by (simp add: ex_parse_def)
  have h2: "\<forall>f \<in> set [ex_file, \<lparr>file_pkg = ''main'', file_decls = [ex_bad_tree]\<rparr>]. file_pkg f = ''main''"
    by (simp add: ex_file_def)
  have h3: "''main'' \<noteq> ''''" by simp
  have bad: "\<not> tree_ok (file_node \<lparr>file_pkg = ''main'', file_decls = [ex_bad_tree]\<rparr>)"
    by (simp add: tree_ok_def file_node_def ex_bad_tree_def ex_bad_loop_def ex_loop_def outermost.simps)
  have h4: "\<exists>f \<in> set [ex_file, \<lparr>file_pkg = ''main'', file_decls = [ex_bad_tree]\<rparr>]. \<not> tree_ok (file_node f)"
    by (rule bexI [where P = "\<lambda>f. \<not> tree_ok (file_node f)", OF bad]) simp
  show ?thesis
    by (intro conjI h1 h2 h3 h4 main_go_panics [OF h1 h2 h3 h4])
qed

text \<open>
  C24. The loop of \<open>CheckFiles\<close> only ever appends to the visitor's warnings and never
  writes to standard output itself, whichever way it ends.
\<close>

theorem check_loop_accumulates:
  "check_loop parse pp pkgName v ps = Inr (r, v') \<Longrightarrow>
   (\<exists>ws. warnings v' = warnings v @ ws) \<and> printed v' = printed v"
  by (auto dest: check_loop_grows)

theorem check_loop_accumulates_witness:
  "(\<exists>ws. warnings \<lparr>warnings = [\<lparr>usageExpr = ''e'', usagePos = (''a.go'', 3),
                                 rangeExpr = ''for e, e := range e'', rangePos = (''a.go'', 2)\<rparr>],
                    printed = ''''\<rparr> = warnings empty_visitor @ ws)
   \<and> printed \<lparr>warnings = [\<lparr>usageExpr = ''e'', usagePos = (''a.go'', 3),
                           rangeExpr = ''for e, e := range e'', rangePos = (''a.go'', 2)\<rparr>],
              printed = ''''\<rparr> = printed empty_visitor"
proof -
  have run: "check_loop ex_parse (\<lambda>_. ''e'') '''' empty_visitor [''a.go''] =
      Inr (None, \<lparr>warnings = [\<lparr>usageExpr = ''e'', usagePos = (''a.go'', 3),
                                rangeExpr = ''for e, e := range e'', rangePos = (''a.go'', 2)\<rparr>],
                   printed = ''''\<rparr>)"
    by code_simp
  show ?thesis by (rule check_loop_accumulates [OF run])
qed

end
