(* ===== verification/Example.thy ===== *)
theory Example
  imports CheckFiles
begin

text \<open>
  The repository's example input \<open>src/example/example.go\<close>, as the syntax tree
  \<open>go/parser\<close> builds for it, and the run of the command on it. Identifiers carry the
  object the parser resolves them to, numbered in declaration order (1 \<open>main\<close>,
  2 \<open>MyStruct\<close>, 3 \<open>values\<close>, \<dots>); the blank identifier of a \<open>:=\<close> header gets an
  object of its own; \<open>append\<close>, \<open>int\<close>, \<open>fmt\<close> and selected field names stay
  unresolved. String literals are kept without their quotes. The theorem at the end is
  the whole output of \<open>loopcheck example.go\<close>: seven warnings, among them the two the
  file marks as false positives (lines 37 and 38), and none for the copy through
  \<open>v2\<close> (line 47), which needs a data-flow analysis.
\<close>

definition ex_pos :: "nat \<Rightarrow> pos" where
  "ex_pos n = (''example.go'', n)"

abbreviation lit :: "string \<Rightarrow> node" where
  "lit s \<equiv> Node (BasicLit s) []"

abbreviation my_struct :: node where
  "my_struct \<equiv> Ident ''MyStruct'' (Some 2)"

abbreviation values_id :: node where
  "values_id \<equiv> Ident ''values'' (Some 3)"

abbreviation append_to :: "node \<Rightarrow> node \<Rightarrow> node" where
  "append_to out e \<equiv> Node (AssignStmt ASSIGN) [out, Node CallExpr [Ident ''append'' None, out, e]]"

abbreviation println :: "string \<Rightarrow> node \<Rightarrow> node" where
  "println s x \<equiv> Node ExprStmt [Node CallExpr [Node SelectorExpr [Ident ''fmt'' None, Ident ''Println'' None], lit s, x]]"

abbreviation ptr_slice :: "string \<Rightarrow> obj \<Rightarrow> node \<Rightarrow> node" where
  "ptr_slice nm ob elt \<equiv> Node (AssignStmt DEFINE) [Ident nm (Some ob), Node CompositeLit [Node ArrayType [Node StarExpr [elt]]]]"

abbreviation number_of :: "node \<Rightarrow> node" where
  "number_of x \<equiv> Node SelectorExpr [x, Ident ''number'' None]"

subsection \<open>The six loops of \<open>main\<close>\<close>

definition loop_output1 :: node where
  "loop_output1 = RangeStmt (ex_pos 8) DEFINE (Some (Ident ''_'' (Some 5))) (Some (Ident ''v'' (Some 6))) values_id
     (Node BlockStmt [append_to (Ident ''output1'' (Some 4)) (UnaryExpr (ex_pos 9) AND (Ident ''v'' (Some 6)))])"

definition loop_output2 :: node where
  "loop_output2 = RangeStmt (ex_pos 14) DEFINE (Some (Ident ''i'' (Some 8))) None values_id
     (Node BlockStmt
       [Node (AssignStmt DEFINE) [Ident ''v'' (Some 9), Node IndexExpr [values_id, Ident ''i'' (Some 8)]],
        append_to (Ident ''output2'' (Some 7)) (UnaryExpr (ex_pos 16) AND (Ident ''v'' (Some 9)))])"

definition loop_bad_pointers :: node where
  "loop_bad_pointers = RangeStmt (ex_pos 21) DEFINE (Some (Ident ''i'' (Some 11))) None values_id
     (Node BlockStmt [append_to (Ident ''badPointers'' (Some 10)) (UnaryExpr (ex_pos 22) AND (Ident ''i'' (Some 11)))])"

definition loop_still_wrong :: node where
  "loop_still_wrong = RangeStmt (ex_pos 27) DEFINE (Some (Ident ''_'' (Some 13))) (Some (Ident ''v'' (Some 14))) values_id
     (Node BlockStmt
       [append_to (Ident ''stillWrong'' (Some 12))
          (UnaryExpr (ex_pos 28) AND (number_of (Ident ''v'' (Some 14)))),
        append_to (Ident ''stillWrong'' (Some 12))
          (UnaryExpr (ex_pos 29) AND (Node ParenExpr [number_of (Ident ''v'' (Some 14))])),
        append_to (Ident ''stillWrong'' (Some 12))
          (UnaryExpr (ex_pos 30) AND (number_of (Node ParenExpr [Ident ''v'' (Some 14)])))])"

definition loop_actually_fine :: node where
  "loop_actually_fine = RangeStmt (ex_pos 36) DEFINE (Some (Ident ''i'' (Some 16))) (Some (Ident ''v'' (Some 17))) values_id
     (Node BlockStmt
       [append_to (Ident ''actuallyFine'' (Some 15))
          (UnaryExpr (ex_pos 37) AND (Node CompositeLit [my_struct, number_of (Ident ''v'' (Some 17))])),
        append_to (Ident ''actuallyFine'' (Some 15))
          (UnaryExpr (ex_pos 38) AND (Node IndexExpr [values_id, Ident ''i'' (Some 16)]))])"

definition loop_also_wrong :: node where
  "loop_also_wrong = RangeStmt (ex_pos 45) DEFINE (Some (Ident ''_'' (Some 20))) (Some (Ident ''v'' (Some 21))) values_id
     (Node BlockStmt
       [Node (AssignStmt ASSIGN) [Ident ''v2'' (Some 19), Ident ''v'' (Some 21)],
        append_to (Ident ''alsoWrong'' (Some 18)) (UnaryExpr (ex_pos 47) AND (Ident ''v2'' (Some 19)))])"

subsection \<open>The file\<close>

definition example_main :: node where
  "example_main = Node FuncDecl [Ident ''main'' (Some 1), Node FuncType [Node FieldList []],
     Node BlockStmt
      [Node (AssignStmt DEFINE) [values_id, Node CompositeLit [Node ArrayType [my_struct],
         Node CompositeLit [my_struct, lit ''1''], Node CompositeLit [my_struct, lit ''2''],
         Node CompositeLit [my_struct, lit ''3'']]],
       ptr_slice ''output1'' 4 my_struct, loop_output1, println ''output1: '' (Ident ''output1'' (Some 4)),
       ptr_slice ''output2'' 7 my_struct, loop_output2, println ''output2: '' (Ident ''output2'' (Some 7)),
       ptr_slice ''badPointers'' 10 (Ident ''int'' None), loop_bad_pointers,
       println ''badPointers: '' (Ident ''badPointers'' (Some 10)),
       ptr_slice ''stillWrong'' 12 (Ident ''int'' None), loop_still_wrong,
       println ''stillWrong: '' (Ident ''stillWrong'' (Some 12)),
       ptr_slice ''actuallyFine'' 15 my_struct, loop_actually_fine,
       println ''actuallyFine: '' (Ident ''actuallyFine'' (Some 15)),
       ptr_slice ''alsoWrong'' 18 my_struct,
       Node DeclStmt [Node GenDecl [Node ValueSpec [Ident ''v2'' (Some 19), my_struct]]],
       loop_also_wrong, println ''alsoWrong: '' (Ident ''alsoWrong'' (Some 18))]]"

definition example_types :: "node list" where
  "example_types =
     [Node GenDecl [Node TypeSpec [my_struct,
        Node StructType [Node FieldList [Node Field [Ident ''number'' (Some 23), Ident ''int'' None]]]]],
      Node FuncDecl [Node FieldList [Node Field [Ident ''m'' (Some 22), Node StarExpr [my_struct]]],
        Ident ''String'' None,
        Node FuncType [Node FieldList [], Node FieldList [Node Field [Ident ''string'' None]]],
        Node BlockStmt [Node (OtherNode ''ReturnStmt'')
          [Node CallExpr [Node SelectorExpr [Ident ''fmt'' None, Ident ''Sprintf'' None],
             lit ''MyStruct{%d}'', number_of (Ident ''m'' (Some 22))]]]]]"

definition example_file :: go_file where
  "example_file =
     \<lparr>file_pkg = ''main'',
      file_decls = [Node GenDecl [Node (OtherNode ''ImportSpec'') [lit ''fmt'']], example_main] @ example_types\<rparr>"

definition example_parse :: "string \<Rightarrow> string + go_file" where
  "example_parse path =
     (if path = ''example.go'' then Inr example_file else Inl (path @ '': no such file or directory''))"

subsection \<open>The run\<close>

definition example_stdout :: string where
  "example_stdout =
     ''example.go:9: takes address of loop variable: &v'' @ newline @
     ''  range at line 8: for _, v := range values'' @ newline @
     ''example.go:22: takes address of loop variable: &i'' @ newline @
     ''  range at line 21: for i := range values'' @ newline @
     ''example.go:28: takes address of loop variable: &v.number'' @ newline @
     ''  range at line 27: for _, v := range values'' @ newline @
     ''example.go:29: takes address of loop variable: &(v.number)'' @ newline @
     ''  range at line 27: for _, v := range values'' @ newline @
     ''example.go:30: takes address of loop variable: &(v).number'' @ newline @
     ''  range at line 27: for _, v := range values'' @ newline @
     ''example.go:37: takes address of loop variable: &MyStruct{v.number}'' @ newline @
     ''  range at line 36: for i, v := range values'' @ newline @
     ''example.go:38: takes address of loop variable: &values[i]'' @ newline @
     ''  range at line 36: for i, v := range values'' @ newline"

text \<open>
  Running \<open>loopcheck example.go\<close> exits with status 0 and prints exactly seven
  warnings, in source order: \<open>&v\<close> (line 9), \<open>&i\<close> (22), the three field addresses
  of lines 28--30, and the two expressions of lines 37--38 that the file marks as false
  positives (\<open>&MyStruct{v.number}\<close>, \<open>&values[i]\<close>); the loops of lines 14 and 45,
  which copy the value into another variable first, produce none.
\<close>

theorem example_output:
  "main_go example_parse print_node [''loopcheck'', ''example.go''] = (0, example_stdout, '''')"
  by code_simp

end
