(* ===== verification/Buffer.thy ===== *)
theory Buffer
  imports RangeCheck "HOL-Library.State_Monad"
begin

text \<open>
  The renderers \<open>visitor.str\<close> and \<open>visitor.rangestr\<close> of
  \<open>src/libloopcheck/loopcheck.go\<close> (lines 137--154) as the code writes them: both print
  into the one \<open>bytes.Buffer\<close> of the visitor, which they reset first and read back last.
  The buffer is the state of a \<open>State_Monad\<close> program; \<open>Reset\<close>,
  \<open>WriteString\<close>, \<open>printer.Fprint\<close> and \<open>String\<close> are its actions. The warning
  literal of \<open>checkRange\<close> (lines 98--99) calls both in turn. The theorems show that
  the shared buffer carries nothing from one call to the next: the stateful renderers
  return the texts of the pure \<open>str\<close> and \<open>rangestr\<close> of \<open>RangeCheck\<close>, whatever
  the buffer held.
\<close>

type_synonym buffer = string
  \<comment> \<open>the contents of the visitor's \<open>bytes.Buffer\<close>\<close>

definition buffer_reset :: "(buffer, unit) state" where
  "buffer_reset = State_Monad.set ''''"

definition buffer_write :: "string \<Rightarrow> (buffer, unit) state" where
  "buffer_write t = State_Monad.bind State_Monad.get (\<lambda>b. State_Monad.set (b @ t))"

definition buffer_string :: "(buffer, string) state" where
  "buffer_string = State_Monad.get"

text \<open>\<open>printer.Fprint(&v.buffer, v.fset, n)\<close>; a \<open>nil\<close> node writes nothing.\<close>

definition fprint :: "(node \<Rightarrow> string) \<Rightarrow> node option \<Rightarrow> (buffer, unit) state" where
  "fprint pp n = buffer_write (print_opt pp n)"

definition str_buf :: "(node \<Rightarrow> string) \<Rightarrow> node \<Rightarrow> (buffer, string) state" where
  "str_buf pp node = do {
     buffer_reset;
     fprint pp (Some node);
     buffer_string
   }"

fun rangestr_buf :: "(node \<Rightarrow> string) \<Rightarrow> node \<Rightarrow> (buffer, string) state" where
  "rangestr_buf pp (RangeStmt _ _ k vl x _) = do {
     buffer_reset;
     buffer_write ''for '';
     fprint pp k;
     (if vl \<noteq> None then do { buffer_write '', ''; fprint pp vl } else State_Monad.return ());
     buffer_write '' := range '';
     fprint pp (Some x);
     buffer_string
   }"
| "rangestr_buf pp _ = State_Monad.return ''''"

declare rangestr_buf.simps [simp del]

text \<open>The literal \<open>warning{v.str(unary), unary.Pos(), v.rangestr(node), node.Pos()}\<close>.\<close>

definition mk_warning_buf :: "(node \<Rightarrow> string) \<Rightarrow> node \<Rightarrow> node \<Rightarrow> (buffer, warning) state" where
  "mk_warning_buf pp unary node = do {
     u \<leftarrow> str_buf pp unary;
     r \<leftarrow> rangestr_buf pp node;
     State_Monad.return \<lparr>usageExpr = u, usagePos = node_pos unary, rangeExpr = r, rangePos = node_pos node\<rparr>
   }"

lemma run_buffer_ops [simp]:
  "run_state buffer_reset b = ((), '''')"
  "run_state (buffer_write t) b = ((), b @ t)"
  "run_state buffer_string b = (b, b)"
  "run_state (fprint pp n) b = ((), b @ print_opt pp n)"
  by (simp_all add: buffer_reset_def buffer_write_def buffer_string_def fprint_def)

lemma run_str_buf: "run_state (str_buf pp n) b = (str pp n, str pp n)"
  by (simp add: str_buf_def str_def)

lemma run_rangestr_buf:
  "run_state (rangestr_buf pp (RangeStmt p t k vl x body)) b =
     (rangestr pp (RangeStmt p t k vl x body), rangestr pp (RangeStmt p t k vl x body))"
  by (simp add: rangestr_buf.simps split: option.split)

text \<open>
  C27. The shared buffer carries nothing between renderings: building a warning through
  \<open>v.str\<close> and then \<open>v.rangestr\<close>, which both print into \<open>v.buffer\<close>, gives the
  warning of the pure renderers whatever the buffer held before, and leaves the range
  text in the buffer.
\<close>

theorem mk_warning_buf_pure:
  "run_state (mk_warning_buf pp u (RangeStmt p t k vl x body)) b =
     (mk_warning pp u (RangeStmt p t k vl x body), rangestr pp (RangeStmt p t k vl x body))"
  by (simp add: mk_warning_buf_def run_str_buf run_rangestr_buf mk_warning_def)

end
