(* ===== verification/Debug.thy ===== *)
theory Debug
  imports Visitor
begin

text \<open>
  The debugging output of \<open>src/libloopcheck/loopcheck.go\<close>: the type \<open>debugging\<close>,
  the constant \<open>debug\<close> and \<open>debugf\<close> (lines 14--23), and \<open>visitor.Visit\<close> with its
  three \<open>debugf\<close> calls (lines 116--135), as \<open>visit_debug\<close>. Its state pairs the
  visitor with the log, the list of messages \<open>log.Printf\<close> has written to standard
  error (the timestamp \<open>log\<close> puts before each is left out). A panic keeps the log
  written before it: standard error is not unwound. The theorems show that debugging
  never changes the analysis, that with the repository's \<open>debug = false\<close> nothing is
  logged, and which lines are logged when it is on.
\<close>

type_synonym debugging = bool

definition debug :: debugging where
  "debug = False"

text \<open>\<open>fmt.Sprintf\<close> for the verb \<open>%s\<close>, the only one the program's formats use.\<close>

fun sprintf :: "string \<Rightarrow> string list \<Rightarrow> string" where
  "sprintf [] args = []"
| "sprintf (c # fmt) args =
     (if c = CHR ''%'' \<and> take 1 fmt = ''s''
      then (case args of
              a # args' \<Rightarrow> a @ sprintf (tl fmt) args'
            | [] \<Rightarrow> ''%!s(MISSING)'' @ sprintf (tl fmt) [])
      else c # sprintf fmt args)"

definition debugf :: "debugging \<Rightarrow> string \<Rightarrow> string list \<Rightarrow> string list \<Rightarrow> string list" where
  "debugf dbg format args log = (if dbg then log @ [sprintf format args] else log)"

text \<open>\<open>reflect.TypeOf(node)\<close> printed with \<open>%s\<close>: the node's dynamic Go type.\<close>

fun kind_name :: "kind \<Rightarrow> string" where
  "kind_name File = ''File''"
| "kind_name FuncDecl = ''FuncDecl''"
| "kind_name FuncType = ''FuncType''"
| "kind_name FieldList = ''FieldList''"
| "kind_name Field = ''Field''"
| "kind_name BlockStmt = ''BlockStmt''"
| "kind_name ExprStmt = ''ExprStmt''"
| "kind_name (AssignStmt _) = ''AssignStmt''"
| "kind_name DeclStmt = ''DeclStmt''"
| "kind_name GenDecl = ''GenDecl''"
| "kind_name ValueSpec = ''ValueSpec''"
| "kind_name TypeSpec = ''TypeSpec''"
| "kind_name StructType = ''StructType''"
| "kind_name ArrayType = ''ArrayType''"
| "kind_name StarExpr = ''StarExpr''"
| "kind_name ParenExpr = ''ParenExpr''"
| "kind_name SelectorExpr = ''SelectorExpr''"
| "kind_name IndexExpr = ''IndexExpr''"
| "kind_name CallExpr = ''CallExpr''"
| "kind_name CompositeLit = ''CompositeLit''"
| "kind_name KeyValueExpr = ''KeyValueExpr''"
| "kind_name (BasicLit _) = ''BasicLit''"
| "kind_name FuncLit = ''FuncLit''"
| "kind_name (OtherNode s) = s"

fun type_name :: "node \<Rightarrow> string" where
  "type_name (Ident _ _) = ''*ast.Ident''"
| "type_name (UnaryExpr _ _ _) = ''*ast.UnaryExpr''"
| "type_name (RangeStmt _ _ _ _ _ _) = ''*ast.RangeStmt''"
| "type_name (Node k _) = ''*ast.'' @ kind_name k"

definition visit_debug ::
  "debugging \<Rightarrow> (node \<Rightarrow> string) \<Rightarrow> visitor \<times> string list \<Rightarrow> node \<Rightarrow>
   panic \<times> string list + bool \<times> visitor \<times> string list" where
  "visit_debug dbg pp st node =
     (case st of (v, log) \<Rightarrow>
       (let log = debugf dbg (''%s'' @ [CHR 0x0A]) [type_name node] log in
        case node of
          Ident name _ \<Rightarrow> Inr (True, v, debugf dbg (''  ident: %s'' @ [CHR 0x0A]) [name] log)
        | RangeStmt _ _ _ _ _ _ \<Rightarrow>
            (let log = debugf dbg (''  range: %s'' @ [CHR 0x0A]) [rangestr pp node] log in
             case check_range pp v node of
               Inl e \<Rightarrow> Inl (e, log)
             | Inr (ok, v') \<Rightarrow>
                 Inr (False, if ok then v' else v'\<lparr>printed := printed v' @ ''#### RANGE LOOP ERROR'' @ [CHR 0x0A]\<rparr>,
                      log))
        | _ \<Rightarrow> Inr (True, v, log)))"

text \<open>The lines one call of \<open>Visit\<close> logs when debugging is on.\<close>

fun debug_lines :: "(node \<Rightarrow> string) \<Rightarrow> node \<Rightarrow> string list" where
  "debug_lines pp (Ident name ob) = [type_name (Ident name ob) @ [CHR 0x0A], ''  ident: '' @ name @ [CHR 0x0A]]"
| "debug_lines pp (RangeStmt p t k vl x b) =
     [type_name (RangeStmt p t k vl x b) @ [CHR 0x0A],
      ''  range: '' @ rangestr pp (RangeStmt p t k vl x b) @ [CHR 0x0A]]"
| "debug_lines pp n = [type_name n @ [CHR 0x0A]]"

lemma sprintf_s_line [simp]: "sprintf (''%s'' @ [CHR 0x0A]) [a] = a @ [CHR 0x0A]"
  by simp

lemma sprintf_ident_line [simp]: "sprintf (''  ident: %s'' @ [CHR 0x0A]) [a] = ''  ident: '' @ a @ [CHR 0x0A]"
  by simp

lemma sprintf_range_line [simp]: "sprintf (''  range: %s'' @ [CHR 0x0A]) [a] = ''  range: '' @ a @ [CHR 0x0A]"
  by simp

lemma visit_debug_visit:
  "map_sum fst (map_prod id fst) (visit_debug dbg pp (v, log) m) = visit pp v m"
  by (cases m) (auto simp: visit_debug_def visit_def Let_def split: sum.splits)

lemma visit_debug_off:
  "map_sum (\<lambda>e. (e, log)) (map_prod id (\<lambda>v. (v, log))) (visit pp v m) = visit_debug False pp (v, log) m"
  by (cases m) (auto simp: visit_debug_def visit_def debugf_def Let_def split: sum.splits)

text \<open>
  C28. Debugging never changes the analysis: with \<open>debug\<close> true or false, a walk of
  the instrumented \<open>Visit\<close> over any tree gathers the same visitor, and panics with
  the same value, as the walk of \<open>visit\<close>.
\<close>

theorem walk_visit_debug_same:
  "map_sum fst fst (walk (visit_debug dbg pp) n (v, log)) = walk (visit pp) n v"
proof -
  have "map_sum fst fst (walk (visit_debug dbg pp) n (v, log)) = walk (visit pp) n (fst (v, log))"
    by (rule walk_map_state) (metis visit_debug_visit prod.collapse)
  then show ?thesis by simp
qed

text \<open>
  C29. With the repository's setting \<open>debug = false\<close>, a walk writes nothing to the
  log, on success and on panic alike.
\<close>

theorem walk_debug_off_silent:
  "walk (visit_debug debug pp) n (v, log) =
     map_sum (\<lambda>e. (e, log)) (\<lambda>v'. (v', log)) (walk (visit pp) n v)"
  unfolding debug_def
  by (rule walk_map_state [symmetric]) (rule visit_debug_off)

subsection \<open>The log when debugging is on\<close>

definition debug_step :: "(node \<Rightarrow> string) \<Rightarrow> node \<Rightarrow> visitor \<times> string list \<Rightarrow> visitor \<times> string list" where
  "debug_step pp m st =
     (case st of (v, log) \<Rightarrow>
       (if is_range m then add_warnings (range_warnings pp m) v else v, log @ debug_lines pp m))"

lemma filter_pruned_outermost: "filter P (pruned (\<lambda>m. \<not> P m) n) = outermost P n"
proof (induction P n rule: outermost.induct)
  case (1 P n)
  show ?case
  proof (cases "P n")
    case True
    then show ?thesis by (simp add: pruned.simps [of _ n] outermost.simps [of P n])
  next
    case False
    with "1.IH" show ?thesis
      by (simp add: pruned.simps [of _ n] outermost.simps [of P n] filter_concat map_concat comp_def
               cong: map_cong)
  qed
qed

lemma fold_debug_step:
  "fold (debug_step pp) ms (v, log) =
     (add_warnings (concat (map (range_warnings pp) (filter is_range ms))) v,
      log @ concat (map (debug_lines pp) ms))"
  by (induction ms arbitrary: v log) (auto simp: debug_step_def)

lemma visit_debug_on:
  assumes "\<not> is_range m \<or> range_ok m"
  shows "visit_debug True pp (v, log) m = Inr (\<not> is_range m, debug_step pp m (v, log))"
  using assms
  by (cases m) (simp_all add: visit_debug_def debugf_def debug_step_def check_range_eq Let_def)

text \<open>
  C30. With debugging on, and no malformed \<open>range\<close> header among the outermost ones,
  the log of a walk is, for each node \<open>Visit\<close> is called on (every node of the tree
  but those inside a \<open>range\<close> statement, in pre-order), the node's Go type, then for
  an identifier its name and for a \<open>range\<close> statement its header; the warnings are
  those of the walk without debugging.
\<close>

theorem walk_debug_on_log:
  assumes "tree_ok n"
  shows "walk (visit_debug True pp) n (v, log) =
           Inr (add_warnings (tree_warnings pp n) v,
                log @ concat (map (debug_lines pp) (pruned (\<lambda>m. \<not> is_range m) n)))"
proof -
  have "walk (visit_debug True pp) n (v, log) =
          Inr (fold (debug_step pp) (pruned (\<lambda>m. \<not> is_range m) n) (v, log))"
  proof (rule walk_pruned, goal_cases)
    case (1 s m)
    then have m: "m \<in> set (pruned (\<lambda>m. \<not> is_range m) n)" .
    have "range_ok m" if "is_range m"
    proof -
      from m that have "m \<in> set (outermost is_range n)"
        by (simp flip: filter_pruned_outermost)
      with assms show ?thesis by (simp add: tree_ok_def)
    qed
    then have "\<not> is_range m \<or> range_ok m" by blast
    then show ?case
      by (cases s) (simp add: visit_debug_on)
  qed
  then show ?thesis
    by (simp add: fold_debug_step filter_pruned_outermost tree_warnings_def)
qed

theorem walk_debug_on_log_witness:
  "tree_ok ex_tree \<and>
   walk (visit_debug True (\<lambda>_. ''e'')) ex_tree (empty_visitor, []) =
     Inr (add_warnings (tree_warnings (\<lambda>_. ''e'') ex_tree) empty_visitor,
          [] @ concat (map (debug_lines (\<lambda>_. ''e'')) (pruned (\<lambda>m. \<not> is_range m) ex_tree)))"
proof -
  have ok: "tree_ok ex_tree"
    by (simp add: tree_ok_def ex_tree_def ex_loop_def outermost.simps)
  show ?thesis using ok walk_debug_on_log [OF ok] by simp
qed

end
