(* ===== verification/CheckSteps.thy ===== *)
theory CheckSteps
  imports CheckFiles
begin

text \<open>
  The loop of \<open>CheckFiles\<close> (\<open>src/libloopcheck/loopcheck.go\<close>, lines 29--41) as a
  state machine: a state is either the loop at the head of the remaining paths, with the
  package expected so far and the visitor, or the loop finished with its result. One
  step handles one path; each early \<open>return\<close> and the panic of \<open>ast.Walk\<close> is a step
  to a finished state. The theorem gives the invariant of the states a run reaches,
  proved by rule induction over the steps.
\<close>

datatype cf_state =
    Scanning string visitor "string list"
  | Finished "panic + check_error option \<times> visitor"

inductive cf_step ::
  "(string \<Rightarrow> string + go_file) \<Rightarrow> (node \<Rightarrow> string) \<Rightarrow> cf_state \<Rightarrow> cf_state \<Rightarrow> bool"
  for parse pp where
  paths_done: "cf_step parse pp (Scanning pkg v []) (Finished (Inr (None, v)))"
| parse_failed: "parse p = Inl err \<Longrightarrow>
     cf_step parse pp (Scanning pkg v (p # ps)) (Finished (Inr (Some (ParseError err), v)))"
| wrong_package: "parse p = Inr f \<Longrightarrow> pkg_check pkg p f = Inl err \<Longrightarrow>
     cf_step parse pp (Scanning pkg v (p # ps)) (Finished (Inr (Some err, v)))"
| walk_panicked: "parse p = Inr f \<Longrightarrow> pkg_check pkg p f = Inr pkg' \<Longrightarrow>
     walk (visit pp) (file_node f) v = Inl e \<Longrightarrow>
     cf_step parse pp (Scanning pkg v (p # ps)) (Finished (Inl e))"
| file_checked: "parse p = Inr f \<Longrightarrow> pkg_check pkg p f = Inr pkg' \<Longrightarrow>
     walk (visit pp) (file_node f) v = Inr v' \<Longrightarrow>
     cf_step parse pp (Scanning pkg v (p # ps)) (Scanning pkg' v' ps)"

inductive_simps cf_step_Finished [simp]: "cf_step parse pp (Finished r) s"
inductive_simps cf_step_Nil [simp]: "cf_step parse pp (Scanning pkg v []) s"

text \<open>
  One checked file keeps what the loop knows about the files done so far, when the
  parser never yields an empty package name.
\<close>

lemma file_checked_invariant:
  assumes prev: "map parse pre = map Inr fs" "warnings v = files_warnings pp fs" "printed v = ''''"
      "\<forall>g \<in> set fs. file_pkg g = pkg \<and> tree_ok (file_node g)" "pkg = '''' \<longleftrightarrow> fs = []"
    and step: "parse p = Inr f" "pkg_check pkg p f = Inr pkg'" "walk (visit pp) (file_node f) v = Inr v'"
    and named: "\<forall>p f. parse p = Inr f \<longrightarrow> file_pkg f \<noteq> ''''"
  shows "map parse (pre @ [p]) = map Inr (fs @ [f]) \<and> warnings v' = files_warnings pp (fs @ [f]) \<and>
         printed v' = '''' \<and> (\<forall>g \<in> set (fs @ [f]). file_pkg g = pkg' \<and> tree_ok (file_node g)) \<and>
         (pkg' = '''' \<longleftrightarrow> fs @ [f] = [])"
proof -
  have ok: "tree_ok (file_node f)" and v': "v' = add_warnings (tree_warnings pp (file_node f)) v"
    using step(3) by (auto simp: walk_visit split: if_splits)
  have "file_pkg f = pkg'" and "pkg' \<noteq> ''''" and "pkg \<noteq> '''' \<Longrightarrow> pkg' = pkg"
    using step(1,2) named by (auto simp: pkg_check_def split: if_splits)
  with prev step(1) ok v' show ?thesis by (auto simp: files_warnings_def)
qed

text \<open>
  C31. The invariant of the loop: in every running state reached from the start of
  \<open>CheckFiles\<close>, when the parser never yields an empty package name, the paths done so
  far have all parsed, to files of the expected package with well-formed loop headers;
  the visitor holds exactly their warnings, in order, and nothing has been printed; the
  expected package is still empty only before the first file.
\<close>

theorem cf_reachable_invariant:
  assumes "(cf_step parse pp)\<^sup>*\<^sup>* (Scanning '''' empty_visitor paths) (Scanning pkg v ps)"
    and "\<forall>p f. parse p = Inr f \<longrightarrow> file_pkg f \<noteq> ''''"
  shows "\<exists>pre fs. paths = pre @ ps \<and> map parse pre = map Inr fs \<and>
           warnings v = files_warnings pp fs \<and> printed v = '''' \<and>
           (\<forall>f \<in> set fs. file_pkg f = pkg \<and> tree_ok (file_node f)) \<and> (pkg = '''' \<longleftrightarrow> fs = [])"
proof -
  define P where "P s = (case s of
      Scanning pkg v ps \<Rightarrow>
        \<exists>pre fs. paths = pre @ ps \<and> map parse pre = map Inr fs \<and>
          warnings v = files_warnings pp fs \<and> printed v = '''' \<and>
          (\<forall>f \<in> set fs. file_pkg f = pkg \<and> tree_ok (file_node f)) \<and> (pkg = '''' \<longleftrightarrow> fs = [])
    | Finished _ \<Rightarrow> True)" for s
  have "P (Scanning pkg v ps)"
    using assms(1)
  proof (induction rule: rtranclp_induct)
    case base
    show ?case by (auto simp: P_def empty_visitor_def)
  next
    case (step y z)
    from step.hyps(2) show ?case
    proof (cases rule: cf_step.cases)
      case (file_checked p f pk pk' v0 v' ps')
      from step.IH file_checked(1) obtain pre fs where
          pre: "paths = pre @ p # ps'" and m: "map parse pre = map Inr fs"
          and w: "warnings v0 = files_warnings pp fs" and pr: "printed v0 = ''''"
          and all: "\<forall>g \<in> set fs. file_pkg g = pk \<and> tree_ok (file_node g)"
          and e: "pk = '''' \<longleftrightarrow> fs = []"
        by (auto simp: P_def)
      from file_checked_invariant [OF m w pr all e file_checked(3-5) assms(2)] pre
      have "paths = (pre @ [p]) @ ps' \<and> map parse (pre @ [p]) = map Inr (fs @ [f]) \<and>
          warnings v' = files_warnings pp (fs @ [f]) \<and> printed v' = '''' \<and>
          (\<forall>g \<in> set (fs @ [f]). file_pkg g = pk' \<and> tree_ok (file_node g)) \<and>
          (pk' = '''' \<longleftrightarrow> fs @ [f] = [])"
        by simp
      then show ?thesis
        unfolding P_def file_checked(2) cf_state.case(1) by blast
    qed (simp_all add: P_def)
  qed
  then show ?thesis by (simp add: P_def)
qed

theorem cf_reachable_invariant_witness:
  "(cf_step ex_parse (\<lambda>_. ''e''))\<^sup>*\<^sup>* (Scanning '''' empty_visitor [''a.go'', ''a.go''])
     (Scanning ''main'' \<lparr>warnings = [\<lparr>usageExpr = ''e'', usagePos = (''a.go'', 3),
                                     rangeExpr = ''for e, e := range e'', rangePos = (''a.go'', 2)\<rparr>],
                         printed = ''''\<rparr> [''a.go''])
   \<and> (\<exists>pre fs. [''a.go'', ''a.go''] = pre @ [''a.go''] \<and> map ex_parse pre = map Inr fs \<and>
        [\<lparr>usageExpr = ''e'', usagePos = (''a.go'', 3),
          rangeExpr = ''for e, e := range e'', rangePos = (''a.go'', 2)\<rparr>] = files_warnings (\<lambda>_. ''e'') fs
        \<and> fs \<noteq> [])"
proof -
  have pf: "ex_parse ''a.go'' = Inr ex_file" by (simp add: ex_parse_def)
  have pc: "pkg_check '''' ''a.go'' ex_file = Inr ''main''" by (simp add: pkg_check_def ex_file_def)
  have wk: "walk (visit (\<lambda>_. ''e'')) (file_node ex_file) empty_visitor =
      Inr \<lparr>warnings = [\<lparr>usageExpr = ''e'', usagePos = (''a.go'', 3),
                         rangeExpr = ''for e, e := range e'', rangePos = (''a.go'', 2)\<rparr>],
           printed = ''''\<rparr>"
    by code_simp
  have reach: "(cf_step ex_parse (\<lambda>_. ''e''))\<^sup>*\<^sup>* (Scanning '''' empty_visitor [''a.go'', ''a.go''])
     (Scanning ''main'' \<lparr>warnings = [\<lparr>usageExpr = ''e'', usagePos = (''a.go'', 3),
                                     rangeExpr = ''for e, e := range e'', rangePos = (''a.go'', 2)\<rparr>],
                         printed = ''''\<rparr> [''a.go''])"
    by (rule r_into_rtranclp, rule cf_step.file_checked [where parse = ex_parse, OF pf pc wk])
  have pk: "\<forall>p f. ex_parse p = Inr f \<longrightarrow> file_pkg f \<noteq> ''''"
    by (simp add: ex_parse_def ex_file_def ex_other_pkg_def)
  from cf_reachable_invariant [OF reach pk] obtain pre fs where
      p: "[''a.go'', ''a.go''] = pre @ [''a.go'']" and m: "map ex_parse pre = map Inr fs"
      and w: "warnings \<lparr>warnings = [\<lparr>usageExpr = ''e'', usagePos = (''a.go'', 3),
                                     rangeExpr = ''for e, e := range e'', rangePos = (''a.go'', 2)\<rparr>],
                         printed = ''''\<rparr> = files_warnings (\<lambda>_. ''e'') fs"
      and e: "''main'' = '''' \<longleftrightarrow> fs = []"
    by blast
  from e have "fs \<noteq> []" by simp
  with reach p m w show ?thesis by auto
qed

end
