(* ===== verification/Spec2Isabelle.thy ===== *)
theory Spec2Isabelle
  imports Example Buffer Debug CheckSteps "HOL-Library.Multiset"
begin

text \<open>
  \<^bold>\<open>A verification development of loopcheck.\<close>

  loopcheck (\<open>src/\<close>) is a Go static analyser: given Go source files of one package it
  reports every address-of expression \<open>&e\<close> inside the body of a \<open>for \<dots> range\<close> loop
  whose operand mentions the loop's key or value variable, because Go (before 1.22)
  reuses one variable across iterations and the stored pointer sees the last value.
  Its parts and how they interact:
  \<^item> the syntax tree provider (\<open>go/parser\<close>, \<open>go/ast\<close>, \<open>go/printer\<close>, external):
    parses each file into a tree whose identifiers are resolved to objects, walks trees,
    prints nodes;
  \<^item> the escape detector, \<open>visitor.checkRange\<close> (\<open>src/libloopcheck/loopcheck.go\<close>
    lines 67--114) with the renderers \<open>rangestr\<close> and \<open>str\<close> (137--154): for one
    range loop, two nested \<open>ast.Inspect\<close> calls search the body for \<open>&\<close> and its
    operand for identifiers whose \<open>Obj\<close> is the key's or the value's;
  \<^item> the file walk, \<open>visitor.Visit\<close> (116--135): \<open>ast.Walk\<close>'s visitor, which calls
    \<open>checkRange\<close> on each range statement it meets and does not descend into it;
  \<^item> debug logging, \<open>debugf\<close> (14--23), called three times by \<open>Visit\<close>; it logs
    only when the constant \<open>debug\<close> is true, and it is false;
  \<^item> the driver and reporter, \<open>CheckFiles\<close> (25--52): parses the files in order,
    checks that they share one package, walks each, then prints two lines per warning;
  \<^item> the entry point \<open>main\<close> (\<open>src/main.go\<close>): usage message and exit status;
  \<^item> \<open>src/example/example.go\<close>, the repository's test input.

  \<^bold>\<open>Theories.\<close>
  \<^item> \<open>Prelude\<close>: the types \<open>pos\<close> (a resolved \<open>token.Pos\<close>: file name and line)
    and \<open>obj\<close> (an object identity; \<open>None\<close> is Go's \<open>nil\<close>); \<open>fold_m\<close>, a loop
    whose body may panic, as a fold over a sum type with early exit, and its lemmas.
  \<^item> \<open>GoAst\<close>: the tree \<open>node\<close>, with constructors for the three node types the
    analyser distinguishes (\<open>Ident\<close> with its \<open>Obj\<close>, \<open>UnaryExpr\<close>, \<open>RangeStmt\<close>)
    and \<open>Node kind children\<close> for all others; \<open>children\<close> in \<open>ast.Walk\<close>'s order;
    \<open>walk\<close>, i.e. \<open>ast.Walk\<close>/\<open>ast.Inspect\<close> with a state-passing, possibly
    panicking visitor (a \<open>function\<close> terminating by the size of the tree);
    \<open>print_node\<close>, a stand-in for \<open>go/printer\<close> on expressions. The traversal lemmas
    \<open>walk_fold\<close> (a visitor that always descends acts on the pre-order list of nodes) and
    \<open>walk_outermost\<close> (a visitor that stops at the nodes it handles acts on the outermost
    such nodes) carry every later proof, with \<open>walk_pruned\<close> (a visitor that descends
    below some nodes only acts on the nodes it meets, \<open>pruned\<close>) and \<open>walk_map_state\<close>
    (two visitors that agree up to a projection of the state walk alike);
    \<open>walk_dom_total\<close>: the walk terminates for every visitor; \<open>rename_idents\<close>
    renames identifiers and commutes with both traversal orders.
  \<^item> \<open>RangeCheck\<close>: records \<open>warning\<close> and \<open>visitor\<close> (the Go structs; the
    file set is already applied in \<open>pos\<close>, the buffer is modelled in \<open>Buffer\<close>, a
    field \<open>printed\<close> records what the visitor writes to standard output), \<open>slot_obj\<close>,
    the closures \<open>ident_fn\<close> and \<open>body_fn\<close>, \<open>check_range\<close>; a panic is the
    value \<open>Inl (Panic ''wtf'')\<close>. The specification \<open>range_warnings\<close> describes the
    result without traversal, and \<open>check_range_eq\<close> proves the code equal to it.
  \<^item> \<open>Buffer\<close>: \<open>str\<close> and \<open>rangestr\<close> as \<open>State_Monad\<close> programs over the
    visitor's shared \<open>bytes.Buffer\<close> (\<open>str_buf\<close>, \<open>rangestr_buf\<close>) and the warning
    literal that calls both (\<open>mk_warning_buf\<close>).
  \<^item> \<open>Visitor\<close>: \<open>visit\<close>; \<open>walk_visit\<close> computes a whole file walk as the
    warnings of the outermost range statements (\<open>tree_warnings\<close>) or the panic.
  \<^item> \<open>Debug\<close>: \<open>debug\<close>, \<open>debugf\<close> and \<open>Visit\<close> with its \<open>debugf\<close> calls
    (\<open>visit_debug\<close>), whose state pairs the visitor with the log on standard error; a
    panic carries the log written before it.
  \<^item> \<open>CheckFiles\<close>: \<open>check_loop\<close>, \<open>pkg_check\<close>, \<open>check_files\<close>,
    \<open>report_warning\<close>, \<open>main_go\<close>; the parser and the printer are parameters
    (\<open>parse\<close>, \<open>pp\<close>), so the driver's theorems hold for any parser output.
  \<^item> \<open>CheckSteps\<close>: the same loop of \<open>CheckFiles\<close> as a state machine, an
    \<open>inductive\<close> step relation \<open>cf_step\<close> with one rule per way an iteration ends.
  \<^item> \<open>Example\<close>: the tree of \<open>example.go\<close> and the exact output of the command on it.
  \<^item> this theory: the behaviours that involve the tree, the check and the walk together,
    stated for every loop and shown on small trees, among them the places where the code
    departs from the design.

  \<^bold>\<open>What is proved.\<close> Every property is stated on the code's definitions
  (\<open>check_range\<close>, \<open>walk (visit pp)\<close>, \<open>check_files\<close>, \<open>main_go\<close>, the
  renderers, the step relation), never on a specification function alone.
  Refinement: \<open>checkRange\<close> meets \<open>range_warnings\<close> (C1) and the walk meets
  \<open>tree_warnings\<close> (C2); the driver prints the report of all files in argument order
  (C3); no bindings, no warnings (C4); panics on malformed headers (C5, C6, C17);
  fail-fast errors with no output (C7, C8); parentheses and selectors are transparent
  (C9); the warnings one check adds are sound and complete (C10) and each is attributed
  to its loop and address-of expression (C11); the \<open>#### RANGE LOOP ERROR\<close> branch
  is dead (C12, C13); the report's line numbers read back (C14) and it has two lines per
  warning (C15); exit statuses (C16, C17). Below, the analyser's behaviour on any loop:
  a nested loop's header, malformed or not, has no effect on the outer walk (C18); a
  key-only loop reports every unresolved identifier under \<open>&\<close> (C19); an address-of
  expression is reported once per bound identifier in it, counted in the multiset of
  warnings (C20); one that mentions no bound object is not reported whatever its names,
  so the fix \<open>v := v\<close> works (C21); a nested loop's body is searched for the outer
  bindings (C22); and the count is static, independent of the ranged collection (C23).
  The driver only appends warnings and never prints inside its loop (C24); identifiers
  are told apart by object, never by name, in every tree (C25, via \<open>rename_idents\<close>
  of \<open>GoAst\<close>); every run without error is one of C3's (C26), so C3 and C26 together
  characterise the successful runs. The shared buffer carries nothing between
  renderings (C27). Debugging never changes the analysis (C28), logs nothing with
  \<open>debug = false\<close> (C29), and when on logs each node \<open>Visit\<close> meets (C30). The
  states the step relation reaches satisfy the loop's invariant, proved by rule
  induction (C31). A run that ends with an error prints nothing (C32), and because
  parsing and checking are interleaved file by file, a malformed header panics before a
  later file's parse error is seen (C33). Theory \<open>Example\<close> computes the command's
  output on \<open>example.go\<close> (\<open>example_output\<close>).

  \<^bold>\<open>Bounds and fuel.\<close> None are needed: every traversal is structural in the tree
  (\<open>walk\<close>, \<open>preorder\<close>, \<open>outermost\<close>, \<open>pruned\<close> terminate by \<open>size\<close>, and
  \<open>walk\<close> is total by \<open>walk_dom_total\<close>), and the driver recurses on the list of
  paths. Line numbers are \<open>nat\<close>; no arithmetic of the program can overflow.

  \<^bold>\<open>Not modelled.\<close> The parser itself (its output is an input of the model: a tree
  with resolved objects), the printer beyond the expression forms of the examples,
  \<open>fmt\<close> verbs other than \<open>%s\<close> and the timestamp \<open>log.Printf\<close> puts before each
  debug message, the closing \<open>v.Visit(nil)\<close> of \<open>ast.Walk\<close> (\<open>Visit\<close> returns
  on \<open>nil\<close> before it logs or changes anything), and the goroutine trace Go prints after
  \<open>panic: wtf\<close>. Every function, method and type of \<open>src/\<close> is modelled; the lines
  no definition translates are package clauses, imports, comments and blank lines. What
  remains outside is the syntax tree provider, an external library: turning source text
  into a tree and resolving identifiers to objects are inputs of the model, not code of
  the repository, and are described only by the properties the theorems assume of them
  (C3, C26, C31).
\<close>

subsection \<open>Small programs\<close>

definition nested_body :: node where
  "nested_body = Node BlockStmt [Node (AssignStmt ASSIGN) [Ident ''p'' (Some 6), UnaryExpr (''n.go'', 3) AND (Ident ''b'' (Some 4))]]"
  \<comment> \<open>\<open>{ p = &b }\<close>\<close>

definition nested_inner :: node where
  "nested_inner = RangeStmt (''n.go'', 2) DEFINE (Some (Ident ''_'' (Some 3))) (Some (Ident ''b'' (Some 4)))
     (Ident ''ys'' (Some 5)) nested_body"
  \<comment> \<open>\<open>for _, b := range ys { p = &b }\<close>\<close>

definition nested_outer :: node where
  "nested_outer = RangeStmt (''n.go'', 1) DEFINE (Some (Ident ''_'' (Some 1))) (Some (Ident ''a'' (Some 2)))
     (Ident ''xs'' (Some 0)) (Node BlockStmt [nested_inner])"
  \<comment> \<open>\<open>for _, a := range xs { for _, b := range ys { p = &b } }\<close>\<close>

definition key_only_use :: node where
  "key_only_use = UnaryExpr (''k.go'', 6) AND (Node SelectorExpr [Ident ''cfg'' (Some 8), Ident ''limit'' None])"
  \<comment> \<open>\<open>&cfg.limit\<close>, \<open>cfg\<close> a local variable\<close>

definition key_only_loop :: node where
  "key_only_loop = RangeStmt (''k.go'', 5) DEFINE (Some (Ident ''i'' (Some 7))) None (Ident ''xs'' (Some 0))
     (Node BlockStmt [Node (AssignStmt ASSIGN) [Ident ''p'' (Some 6), key_only_use]])"
  \<comment> \<open>\<open>for i := range xs { p = &cfg.limit }\<close>\<close>

definition grid_use :: node where
  "grid_use = UnaryExpr (''g.go'', 2) AND (Node IndexExpr [Node IndexExpr [Ident ''grid'' (Some 9), Ident ''i'' (Some 10)],
                                                     Ident ''v'' (Some 11)])"
  \<comment> \<open>\<open>&grid[i][v]\<close>\<close>

definition grid_loop :: node where
  "grid_loop = RangeStmt (''g.go'', 1) DEFINE (Some (Ident ''i'' (Some 10))) (Some (Ident ''v'' (Some 11)))
     (Ident ''m'' (Some 12)) (Node BlockStmt [Node (AssignStmt ASSIGN) [Ident ''p'' (Some 6), grid_use]])"
  \<comment> \<open>\<open>for i, v := range m { p = &grid[i][v] }\<close>\<close>

definition shadow_use :: node where
  "shadow_use = UnaryExpr (''f.go'', 3) AND (Ident ''v'' (Some 3))"
  \<comment> \<open>\<open>&v\<close>, the copy declared in the body\<close>

definition shadow_body :: node where
  "shadow_body = Node BlockStmt
     [Node (AssignStmt DEFINE) [Ident ''v'' (Some 3), Ident ''v'' (Some 2)],
      Node (AssignStmt ASSIGN) [Ident ''p'' (Some 4), shadow_use]]"
  \<comment> \<open>\<open>{ v := v; p = &v }\<close>: the body's \<open>v\<close> is a new object\<close>

definition shadow_loop :: node where
  "shadow_loop = RangeStmt (''f.go'', 1) DEFINE (Some (Ident ''_'' (Some 1))) (Some (Ident ''v'' (Some 2)))
     (Ident ''xs'' (Some 0)) shadow_body"
  \<comment> \<open>\<open>for _, v := range xs { v := v; p = &v }\<close>\<close>

definition outer_use :: node where
  "outer_use = UnaryExpr (''o.go'', 3) AND (Ident ''v'' (Some 2))"
  \<comment> \<open>\<open>&v\<close>\<close>

definition outer_use_body :: node where
  "outer_use_body = Node BlockStmt [Node (AssignStmt ASSIGN) [Ident ''p'' (Some 5), outer_use]]"
  \<comment> \<open>\<open>{ p = &v }\<close>\<close>

definition outer_use_loop :: node where
  "outer_use_loop = RangeStmt (''o.go'', 1) DEFINE (Some (Ident ''_'' (Some 1))) (Some (Ident ''v'' (Some 2)))
     (Ident ''xs'' (Some 0))
     (Node BlockStmt [RangeStmt (''o.go'', 2) DEFINE (Some (Ident ''j'' (Some 3))) None (Ident ''ys'' (Some 4))
        outer_use_body])"
  \<comment> \<open>\<open>for _, v := range xs { for j := range ys { p = &v } }\<close>\<close>

subsection \<open>Loops nested in a loop body\<close>

text \<open>
  The walk over a range statement is the check of that statement alone: \<open>Visit\<close>
  returns \<open>nil\<close> there, so \<open>ast.Walk\<close> does not descend.
\<close>

lemma walk_visit_range:
  "walk (visit pp) (RangeStmt q t k vl x body) v =
     (if range_ok (RangeStmt q t k vl x body)
      then Inr (add_warnings (range_warnings pp (RangeStmt q t k vl x body)) v) else Inl (Panic ''wtf''))"
  by (simp add: walk_visit tree_ok_def tree_warnings_def outermost.simps [of _ "RangeStmt q t k vl x body"])

lemma outermost_child:
  assumes "c \<in> set (children m)" and "\<not> P m"
  shows "set (outermost P c) \<subseteq> set (outermost P m)"
  using assms by (subst (2) outermost.simps) auto

text \<open>A header whose slots hold no address-of expression adds none to the loop's.\<close>

lemma outermost_range_header:
  assumes "\<forall>s \<in> set (opt_list k @ opt_list vl @ opt_list k' @ opt_list vl'). outermost is_addr s = []"
  shows "outermost is_addr (RangeStmt q t k' vl' x body) = outermost is_addr (RangeStmt q t k vl x body)"
  using assms
  by (cases k; cases vl; cases k'; cases vl'; simp add: outermost.simps [of is_addr "RangeStmt _ _ _ _ _ _"])

text \<open>The outermost address-of expressions of a loop body include those of a loop in it.\<close>

lemma outermost_block_inner:
  assumes "u \<in> set (outermost is_addr body)"
  shows "u \<in> set (outermost is_addr (Node kd (pre @ RangeStmt q t k vl x body # post)))"
proof -
  have "set (outermost is_addr body) \<subseteq> set (outermost is_addr (RangeStmt q t k vl x body))"
    by (rule outermost_child) simp_all
  also have "\<dots> \<subseteq> set (outermost is_addr (Node kd (pre @ RangeStmt q t k vl x body # post)))"
    by (rule outermost_child) simp_all
  finally show ?thesis using assms by blast
qed

lemma bound_refs_pos:
  "m \<in> set (preorder e) \<Longrightarrow> is_ref ko vo m \<Longrightarrow> 0 < bound_refs ko vo e"
  by (auto simp: bound_refs_def filter_empty_conv)

lemma bound_refs_zero:
  assumes "\<forall>nm ob. Ident nm ob \<in> set (preorder e) \<longrightarrow> ob \<noteq> ko \<and> ob \<noteq> vo"
  shows "bound_refs ko vo e = 0"
proof -
  have "\<not> is_ref ko vo m" if "m \<in> set (preorder e)" for m
  proof (cases m)
    case (Ident nm ob)
    with assms that have "ob \<noteq> ko \<and> ob \<noteq> vo" by blast
    with Ident show ?thesis by simp
  qed simp_all
  then show ?thesis by (simp add: bound_refs_def filter_empty_conv)
qed

subsection \<open>Counting warnings\<close>

lemma count_replicate_other:
  assumes "\<forall>y \<in> set ys. f y \<noteq> a"
  shows "count (mset (concat (map (\<lambda>y. replicate (n y) (f y)) ys))) a = 0"
  using assms by (induction ys) auto

text \<open>
  In a list built of \<open>n y\<close> copies of \<open>f y\<close> for each \<open>y\<close>, the copies of \<open>f u\<close>
  number \<open>n u\<close> when \<open>f\<close> determines a key \<open>g\<close> that tells the \<open>y\<close> apart.
\<close>

lemma count_concat_replicate:
  assumes "distinct (map g xs)" and "u \<in> set xs" and "\<And>y. f y = f u \<Longrightarrow> g y = g u"
  shows "count (mset (concat (map (\<lambda>y. replicate (n y) (f y)) xs))) (f u) = n u"
  using assms
proof (induction xs)
  case Nil
  then show ?case by simp
next
  case (Cons y ys)
  show ?case
  proof (cases "y = u")
    case True
    have "\<forall>z \<in> set ys. f z \<noteq> f u"
    proof
      fix z assume "z \<in> set ys"
      from Cons.prems(1) True have "g u \<notin> g ` set ys" by simp
      with \<open>z \<in> set ys\<close> have "g z \<noteq> g u" by (metis rev_image_eqI)
      then show "f z \<noteq> f u" using Cons.prems(3) by blast
    qed
    with True show ?thesis by (simp add: count_replicate_other)
  next
    case False
    from Cons.prems(1,2) False have ih: "distinct (map g ys)" "u \<in> set ys" by auto
    from Cons.prems(1) have "g y \<notin> g ` set ys" by simp
    with \<open>u \<in> set ys\<close> have "g y \<noteq> g u" by (metis rev_image_eqI)
    with Cons.prems(3) have "f y \<noteq> f u" by blast
    from Cons.IH [OF ih Cons.prems(3)] \<open>f y \<noteq> f u\<close> show ?thesis by simp
  qed
qed

subsection \<open>How the analyser treats loops, bindings and operands\<close>

text \<open>
  C18. A range loop nested in the body of another range loop is never checked with its
  own bindings: \<open>Visit\<close> does not descend into a range statement, and the outer check
  only looks for the outer loop's objects. Dropping the key and value of a nested loop,
  or replacing them by any header slots without an address-of expression (a malformed
  one included), leaves the walk over the outer loop unchanged.
\<close>

theorem nested_loop_binding_unchecked:
  assumes "\<forall>s \<in> set (opt_list k' @ opt_list vl' @ opt_list k'' @ opt_list vl''). outermost is_addr s = []"
  shows "walk (visit pp) (RangeStmt q t k vl x (Node kd (pre @ RangeStmt q' t' k'' vl'' x' body' # post))) v =
         walk (visit pp) (RangeStmt q t k vl x (Node kd (pre @ RangeStmt q' t' k' vl' x' body' # post))) v"
proof -
  have "outermost is_addr (Node kd (pre @ RangeStmt q' t' k'' vl'' x' body' # post)) =
        outermost is_addr (Node kd (pre @ RangeStmt q' t' k' vl' x' body' # post))"
    using outermost_range_header [OF assms] by (simp add: outermost.simps [of is_addr "Node _ _"])
  then show ?thesis
    by (simp add: walk_visit_range addr_warnings_def mk_warning_def)
qed

text \<open>
  Inside \<open>for _, a := range xs\<close>, the loop \<open>for _, b := range ys { p = &b }\<close> gives no
  warning, as it does when its bindings are removed; on its own it gives one.
\<close>

theorem nested_loop_binding_unchecked_witness:
  "walk (visit print_node) (RangeStmt (''n.go'', 1) DEFINE (Some (Ident ''_'' (Some 1))) (Some (Ident ''a'' (Some 2)))
       (Ident ''xs'' (Some 0)) (Node BlockStmt [RangeStmt (''n.go'', 2) DEFINE None None (Ident ''ys'' (Some 5)) nested_body]))
       empty_visitor = walk (visit print_node) nested_outer empty_visitor \<and>
   walk (visit print_node) nested_outer empty_visitor = Inr empty_visitor \<and>
   walk (visit print_node) nested_inner empty_visitor =
     Inr \<lparr>warnings = [\<lparr>usageExpr = ''&b'', usagePos = (''n.go'', 3),
                         rangeExpr = ''for _, b := range ys'', rangePos = (''n.go'', 2)\<rparr>],
          printed = ''''\<rparr>"
proof -
  have "\<forall>s \<in> set (opt_list (Some (Ident ''_'' (Some 3))) @ opt_list (Some (Ident ''b'' (Some 4))) @
                  opt_list (None :: node option) @ opt_list (None :: node option)). outermost is_addr s = []"
    by (simp add: outermost.simps)
  from nested_loop_binding_unchecked [OF this, where pp = print_node and q = "(''n.go'', 1)" and t = DEFINE
      and k = "Some (Ident ''_'' (Some 1))" and vl = "Some (Ident ''a'' (Some 2))" and x = "Ident ''xs'' (Some 0)"
      and kd = BlockStmt and pre = "[]" and q' = "(''n.go'', 2)" and t' = DEFINE
      and x' = "Ident ''ys'' (Some 5)" and body' = nested_body and post = "[]" and v = empty_visitor]
  have "walk (visit print_node) (RangeStmt (''n.go'', 1) DEFINE (Some (Ident ''_'' (Some 1))) (Some (Ident ''a'' (Some 2)))
       (Ident ''xs'' (Some 0)) (Node BlockStmt [RangeStmt (''n.go'', 2) DEFINE None None (Ident ''ys'' (Some 5)) nested_body]))
       empty_visitor = walk (visit print_node) nested_outer empty_visitor"
    by (simp add: nested_outer_def nested_inner_def)
  moreover have "walk (visit print_node) nested_outer empty_visitor = Inr empty_visitor"
    by code_simp
  moreover have "walk (visit print_node) nested_inner empty_visitor =
     Inr \<lparr>warnings = [\<lparr>usageExpr = ''&b'', usagePos = (''n.go'', 3),
                         rangeExpr = ''for _, b := range ys'', rangePos = (''n.go'', 2)\<rparr>],
          printed = ''''\<rparr>"
    by code_simp
  ultimately show ?thesis by blast
qed

text \<open>
  C19. In a loop without a value variable (\<open>for i := range xs\<close>) the value's object is
  \<open>nil\<close>, and every unresolved identifier under an \<open>&\<close> matches it: any outermost
  address-of expression of the body whose operand holds an identifier without object is
  reported, whatever it refers to.
\<close>

theorem key_only_loop_false_positive:
  assumes "u \<in> set (outermost is_addr body)" and "Ident nm None \<in> set (preorder (operand u))"
  shows "\<exists>v'. check_range pp v (RangeStmt q t (Some (Ident i (Some ob))) None x body) = Inr (True, v') \<and>
           mk_warning pp u (RangeStmt q t (Some (Ident i (Some ob))) None x body) \<in> set (warnings v')"
  using assms bound_refs_pos [OF assms(2), of "Some ob" None]
  by (auto simp: check_range_eq set_addr_warnings)

text \<open>
  The address of a field of an unrelated local variable, \<open>&cfg.limit\<close>, is reported in
  \<open>for i := range xs\<close>, because the field name \<open>limit\<close> is an identifier without object.
\<close>

theorem key_only_loop_false_positive_witness:
  "key_only_use \<in> set (outermost is_addr (Node BlockStmt [Node (AssignStmt ASSIGN) [Ident ''p'' (Some 6), key_only_use]])) \<and>
   Ident ''limit'' None \<in> set (preorder (operand key_only_use)) \<and>
   (\<exists>v'. check_range print_node empty_visitor key_only_loop = Inr (True, v') \<and>
         mk_warning print_node key_only_use key_only_loop \<in> set (warnings v')) \<and>
   mk_warning print_node key_only_use key_only_loop =
     \<lparr>usageExpr = ''&cfg.limit'', usagePos = (''k.go'', 6), rangeExpr = ''for i := range xs'', rangePos = (''k.go'', 5)\<rparr>"
proof -
  have u: "key_only_use \<in> set (outermost is_addr (Node BlockStmt [Node (AssignStmt ASSIGN) [Ident ''p'' (Some 6), key_only_use]]))"
    by (simp add: key_only_use_def outermost.simps)
  have nm: "Ident ''limit'' None \<in> set (preorder (operand key_only_use))"
    by (simp add: key_only_use_def)
  from key_only_loop_false_positive [OF u nm, where pp = print_node and v = empty_visitor and q = "(''k.go'', 5)"
      and t = DEFINE and i = "''i''" and ob = 7 and x = "Ident ''xs'' (Some 0)"]
  have "\<exists>v'. check_range print_node empty_visitor key_only_loop = Inr (True, v') \<and>
         mk_warning print_node key_only_use key_only_loop \<in> set (warnings v')"
    by (simp add: key_only_loop_def)
  moreover have "mk_warning print_node key_only_use key_only_loop =
     \<lparr>usageExpr = ''&cfg.limit'', usagePos = (''k.go'', 6), rangeExpr = ''for i := range xs'', rangePos = (''k.go'', 5)\<rparr>"
    by code_simp
  ultimately show ?thesis using u nm by blast
qed

text \<open>
  C20. One address-of expression yields one warning per mention of a binding in its
  operand, not one in all: when the outermost address-of expressions of the body are
  told apart by position and text, the check adds exactly \<open>bound_refs\<close> copies of the
  warning for each of them.
\<close>

theorem address_warning_count:
  assumes "check_range pp v (RangeStmt q t k vl x body) = Inr (ok, v')"
    and "u \<in> set (outermost is_addr body)"
    and "distinct (map (\<lambda>u. (node_pos u, str pp u)) (outermost is_addr body))"
    and "slot_id k \<noteq> None \<or> slot_id vl \<noteq> None"
  shows "count (mset (warnings v')) (mk_warning pp u (RangeStmt q t k vl x body)) =
         count (mset (warnings v)) (mk_warning pp u (RangeStmt q t k vl x body)) +
         bound_refs (slot_id k) (slot_id vl) (operand u)"
proof -
  note v' = check_range_bound [OF assms(1,4)]
  have "count (mset (addr_warnings pp (slot_id k) (slot_id vl) (RangeStmt q t k vl x body) body))
          (mk_warning pp u (RangeStmt q t k vl x body)) = bound_refs (slot_id k) (slot_id vl) (operand u)"
    unfolding addr_warnings_def
    by (rule count_concat_replicate [OF assms(3,2)]) (simp add: mk_warning_def)
  with v' show ?thesis by simp
qed

text \<open>\<open>&grid[i][v]\<close> in \<open>for i, v := range m\<close> is reported twice, identically.\<close>

theorem address_warning_count_witness:
  "check_range print_node empty_visitor grid_loop =
     Inr (True, add_warnings (replicate 2 (mk_warning print_node grid_use grid_loop)) empty_visitor) \<and>
   count (mset (warnings (add_warnings (replicate 2 (mk_warning print_node grid_use grid_loop)) empty_visitor)))
     (mk_warning print_node grid_use grid_loop) = 2"
proof -
  have run: "check_range print_node empty_visitor grid_loop =
     Inr (True, add_warnings (replicate 2 (mk_warning print_node grid_use grid_loop)) empty_visitor)"
    by code_simp
  have u: "grid_use \<in> set (outermost is_addr (Node BlockStmt [Node (AssignStmt ASSIGN) [Ident ''p'' (Some 6), grid_use]]))"
    by (simp add: grid_use_def outermost.simps)
  have d: "distinct (map (\<lambda>u. (node_pos u, str print_node u))
             (outermost is_addr (Node BlockStmt [Node (AssignStmt ASSIGN) [Ident ''p'' (Some 6), grid_use]])))"
    by (simp add: grid_use_def outermost.simps)
  from address_warning_count [OF run [unfolded grid_loop_def] u d]
  have "count (mset (warnings (add_warnings (replicate 2 (mk_warning print_node grid_use grid_loop)) empty_visitor)))
          (mk_warning print_node grid_use grid_loop) = 0 + 2"
    by (simp add: grid_loop_def grid_use_def empty_visitor_def bound_refs_def)
  with run show ?thesis by simp
qed

text \<open>
  C21. Bindings are told apart by object, not by name: an outermost address-of
  expression whose operand mentions no identifier resolved to the key's or the value's
  object adds no copy of its warning, whatever the names in it. This is what makes the
  usual fix \<open>v := v\<close> at the top of the body silence the warning: the copy is a new
  object that happens to be called \<open>v\<close>.
\<close>

theorem shadowed_binding_not_reported:
  assumes "check_range pp v (RangeStmt q t k vl x body) = Inr (ok, v')"
    and "u \<in> set (outermost is_addr body)"
    and "distinct (map (\<lambda>u. (node_pos u, str pp u)) (outermost is_addr body))"
    and "\<forall>nm ob. Ident nm ob \<in> set (preorder (operand u)) \<longrightarrow> ob \<noteq> slot_id k \<and> ob \<noteq> slot_id vl"
  shows "count (mset (warnings v')) (mk_warning pp u (RangeStmt q t k vl x body)) =
         count (mset (warnings v)) (mk_warning pp u (RangeStmt q t k vl x body))"
proof (cases "slot_id k = None \<and> slot_id vl = None")
  case True
  with assms(1) show ?thesis by (auto simp: check_range_eq split: if_splits)
next
  case False
  then have v': "v' = add_warnings (addr_warnings pp (slot_id k) (slot_id vl) (RangeStmt q t k vl x body) body) v"
    using check_range_bound [OF assms(1)] by blast
  have "bound_refs (slot_id k) (slot_id vl) (operand u) = 0"
    using assms(4) by (rule bound_refs_zero)
  moreover have "count (mset (addr_warnings pp (slot_id k) (slot_id vl) (RangeStmt q t k vl x body) body))
          (mk_warning pp u (RangeStmt q t k vl x body)) = bound_refs (slot_id k) (slot_id vl) (operand u)"
    unfolding addr_warnings_def
    by (rule count_concat_replicate [OF assms(3,2)]) (simp add: mk_warning_def)
  ultimately show ?thesis using v' by simp
qed

text \<open>
  In \<open>for _, v := range xs { v := v; p = &v }\<close> nothing is reported, although the
  operand is called \<open>v\<close> like the loop's value.
\<close>

theorem shadowed_binding_not_reported_witness:
  "check_range print_node empty_visitor shadow_loop = Inr (True, empty_visitor) \<and>
   count (mset (warnings empty_visitor)) (mk_warning print_node shadow_use shadow_loop) = 0"
proof -
  have run: "check_range print_node empty_visitor shadow_loop = Inr (True, empty_visitor)"
    by code_simp
  have u: "shadow_use \<in> set (outermost is_addr shadow_body)"
    by (simp add: shadow_use_def shadow_body_def outermost.simps)
  have d: "distinct (map (\<lambda>u. (node_pos u, str print_node u)) (outermost is_addr shadow_body))"
    by (simp add: shadow_use_def shadow_body_def outermost.simps)
  have o: "\<forall>nm ob. Ident nm ob \<in> set (preorder (operand shadow_use)) \<longrightarrow>
             ob \<noteq> slot_id (Some (Ident ''_'' (Some 1))) \<and> ob \<noteq> slot_id (Some (Ident ''v'' (Some 2)))"
    by (simp add: shadow_use_def)
  from shadowed_binding_not_reported [OF run [unfolded shadow_loop_def] u d o] run show ?thesis
    by (simp add: shadow_loop_def empty_visitor_def)
qed

text \<open>
  C22. The outer loop's check searches nested loops too: an address-of expression in the
  body of a loop nested in the outer loop's body, whose operand mentions the outer value
  variable's object, is reported and attributed to the outer loop.
\<close>

theorem outer_binding_in_inner_loop:
  assumes "slot_ok k" and "u \<in> set (outermost is_addr body')"
    and "Ident nm (Some ob) \<in> set (preorder (operand u))"
  shows "\<exists>v'. walk (visit pp) (RangeStmt q t k (Some (Ident vn (Some ob))) x
                 (Node kd (pre @ RangeStmt q' t' k' vl' x' body' # post))) v = Inr v' \<and>
           mk_warning pp u (RangeStmt q t k (Some (Ident vn (Some ob))) x
                 (Node kd (pre @ RangeStmt q' t' k' vl' x' body' # post))) \<in> set (warnings v')"
proof -
  let ?rs = "RangeStmt q t k (Some (Ident vn (Some ob))) x (Node kd (pre @ RangeStmt q' t' k' vl' x' body' # post))"
  have "u \<in> set (outermost is_addr (Node kd (pre @ RangeStmt q' t' k' vl' x' body' # post)))"
    by (rule outermost_block_inner [OF assms(2)])
  moreover have "0 < bound_refs (slot_id k) (Some ob) (operand u)"
    by (rule bound_refs_pos [OF assms(3)]) simp
  ultimately have "mk_warning pp u ?rs \<in> set (range_warnings pp ?rs)"
    by (auto simp: set_addr_warnings)
  with assms(1) show ?thesis by (simp add: walk_visit_range)
qed

text \<open>
  In \<open>for _, v := range xs { for j := range ys { p = &v } }\<close> the one warning is the
  outer loop's.
\<close>

theorem outer_binding_in_inner_loop_witness:
  "slot_ok (Some (Ident ''_'' (Some 1))) \<and>
   outer_use \<in> set (outermost is_addr outer_use_body) \<and>
   Ident ''v'' (Some 2) \<in> set (preorder (operand outer_use)) \<and>
   (\<exists>v'. walk (visit print_node) outer_use_loop empty_visitor = Inr v' \<and>
         mk_warning print_node outer_use outer_use_loop \<in> set (warnings v')) \<and>
   walk (visit print_node) outer_use_loop empty_visitor =
     Inr \<lparr>warnings = [\<lparr>usageExpr = ''&v'', usagePos = (''o.go'', 3),
                         rangeExpr = ''for _, v := range xs'', rangePos = (''o.go'', 1)\<rparr>],
          printed = ''''\<rparr>"
proof -
  have k: "slot_ok (Some (Ident ''_'' (Some 1)))" by simp
  have u: "outer_use \<in> set (outermost is_addr outer_use_body)"
    by (simp add: outer_use_def outer_use_body_def outermost.simps)
  have nm: "Ident ''v'' (Some 2) \<in> set (preorder (operand outer_use))"
    by (simp add: outer_use_def)
  from outer_binding_in_inner_loop [OF k u nm, where pp = print_node and q = "(''o.go'', 1)" and t = DEFINE
      and vn = "''v''" and x = "Ident ''xs'' (Some 0)" and kd = BlockStmt and pre = "[]" and q' = "(''o.go'', 2)"
      and t' = DEFINE and k' = "Some (Ident ''j'' (Some 3))" and vl' = None and x' = "Ident ''ys'' (Some 4)"
      and post = "[]" and v = empty_visitor]
  have "\<exists>v'. walk (visit print_node) outer_use_loop empty_visitor = Inr v' \<and>
         mk_warning print_node outer_use outer_use_loop \<in> set (warnings v')"
    by (simp add: outer_use_loop_def)
  moreover have "walk (visit print_node) outer_use_loop empty_visitor =
     Inr \<lparr>warnings = [\<lparr>usageExpr = ''&v'', usagePos = (''o.go'', 3),
                         rangeExpr = ''for _, v := range xs'', rangePos = (''o.go'', 1)\<rparr>],
          printed = ''''\<rparr>"
    by code_simp
  ultimately show ?thesis using k u nm by blast
qed

text \<open>
  C23. The analysis is static: the positions of the warnings of a loop (and hence their
  number), or its panic, do not depend on the collection it ranges over; a single
  textual \<open>&v\<close> is one warning however many iterations the loop makes.
\<close>

theorem usage_positions_static:
  "map_sum id (\<lambda>(ok, v'). map usagePos (warnings v')) (check_range pp v (RangeStmt q t k vl x body)) =
   map_sum id (\<lambda>(ok, v'). map usagePos (warnings v')) (check_range pp v (RangeStmt q t k vl x' body))"
  by (simp add: check_range_eq addr_warnings_def mk_warning_def map_concat comp_def)

end
